theory Spec2Isabelle
  imports Complex_Main "HOL-Library.AList" "HOL-Library.Multiset"
    "HOL-Library.List_Lexorder" "HOL-Library.Product_Lexorder"
begin

section \<open>JavaScript values and the primitives the code calls\<close>

text \<open>
  The reconciler is TypeScript. A spreadsheet cell holds a string or a number; a column
  that a row does not have reads as \<open>undefined\<close>, which is \<open>None\<close> of the lookup.
  A row object is an association list in insertion order of its keys; no property below
  depends on the order of the keys.
  Strings are lists of 8-bit code units, so the white space of the model is the white
  space of JavaScript below code 256.

  Numbers are IEEE doubles in the source. The development does not fix their
  arithmetic: the number type is a parameter \<open>'n\<close>, and the built-in operations the
  source calls on numbers and strings are taken as a record of functions
  (\<open>+\<close>, the literal \<open>0\<close>, \<open>isNaN\<close>, truthiness of a number, \<open>Number.prototype.toString\<close>,
  \<open>parseFloat\<close>, and \<open>String.prototype.localeCompare\<close> with \<open>{numeric: true}\<close>).
  Every general theorem holds for every such record, rounding arithmetic included.
\<close>

datatype 'n val = Str string | Num 'n

type_synonym 'n row = "(string \<times> 'n val) list"

record 'n prims =
  numAdd :: "'n \<Rightarrow> 'n \<Rightarrow> 'n"
  numZero :: "'n"
  isNaN :: "'n \<Rightarrow> bool"
  toBoolean :: "'n \<Rightarrow> bool"
  numToString :: "'n \<Rightarrow> string"
  parseFloat :: "string \<Rightarrow> 'n"
  localeCompare :: "string \<Rightarrow> string \<Rightarrow> int"

definition isSpace :: "char \<Rightarrow> bool" where
  "isSpace c = (c \<in> {CHR 0x09, CHR 0x0A, CHR 0x0B, CHR 0x0C, CHR 0x0D, CHR 0x20, CHR 0xA0})"

definition isDigit :: "char \<Rightarrow> bool" where
  "isDigit c = (c \<in> set ''0123456789'')"

text \<open>\<open>s.trim()\<close>\<close>

definition trim :: "string \<Rightarrow> string" where
  "trim s = rev (dropWhile isSpace (rev (dropWhile isSpace s)))"

text \<open>\<open>xs.join(sep)\<close> on an array of strings\<close>

fun joinWith :: "string \<Rightarrow> string list \<Rightarrow> string" where
  "joinWith sep [] = []"
| "joinWith sep [x] = x"
| "joinWith sep (x # y # ys) = x @ sep @ joinWith sep (y # ys)"

text \<open>\<open>s.replace(/,/g, '')\<close>\<close>

definition stripCommas :: "string \<Rightarrow> string" where
  "stripCommas s = filter (\<lambda>c. c \<noteq> CHR '','') s"

text \<open>\<open>s.replace(/^0+/, '')\<close>\<close>

definition stripLeadingZeros :: "string \<Rightarrow> string" where
  "stripLeadingZeros s = dropWhile (\<lambda>c. c = CHR ''0'') s"

text \<open>\<open>s.startsWith('0')\<close>\<close>

definition startsWithZero :: "string \<Rightarrow> bool" where
  "startsWithZero s = (case s of [] \<Rightarrow> False | c # _ \<Rightarrow> c = CHR ''0'')"

text \<open>
  \<open>(v || '').toString()\<close> on a cell: \<open>undefined\<close>, the empty string and a falsy
  number give the empty string.
\<close>

definition orEmptyToString :: "'n prims \<Rightarrow> 'n val option \<Rightarrow> string" where
  "orEmptyToString P v =
     (case v of
        None \<Rightarrow> []
      | Some (Str s) \<Rightarrow> s
      | Some (Num n) \<Rightarrow> (if toBoolean P n then numToString P n else []))"

text \<open>
  Object spread with trailing properties, \<open>{...row, k1: v1, ..., kn: vn}\<close>: a key the
  row has keeps its place and takes the new value, a new key is appended.
\<close>

definition spread :: "'n row \<Rightarrow> (string \<times> 'n val) list \<Rightarrow> 'n row" where
  "spread r kvs = foldl (\<lambda>acc (k, v). AList.update k v acc) r kvs"

text \<open>
  \<open>[...xs].sort(cmp)\<close>. The language requires the sort to be stable, and for a
  consistent comparator the stable sorted arrangement is unique: it is the one that
  insertion from the right builds.
\<close>

fun insertBy :: "('a \<Rightarrow> 'a \<Rightarrow> int) \<Rightarrow> 'a \<Rightarrow> 'a list \<Rightarrow> 'a list" where
  "insertBy cmp x [] = [x]"
| "insertBy cmp x (y # ys) = (if cmp x y \<le> 0 then x # y # ys else y # insertBy cmp x ys)"

definition sortBy :: "('a \<Rightarrow> 'a \<Rightarrow> int) \<Rightarrow> 'a list \<Rightarrow> 'a list" where
  "sortBy cmp xs = foldr (insertBy cmp) xs []"

section \<open>The data model of the parser module\<close>

record 'n MsgTransaction =
  merchantNumber :: string
  cardNumber :: string
  tranAmount :: "'n"
  commission :: "'n"
  netAmount :: "'n"
  authId :: string

record 'n Summary =
  totalExisting :: "'n"
  totalTrx :: "'n"
  totalCommission :: "'n"
  totalNet :: "'n"
  matchedCount :: nat

record 'n ProcessedResult =
  updatedData :: "'n row list"
  summary :: "'n Summary"

section \<open>processFiles\<close>

subsection \<open>Removing duplicate transactions\<close>

text \<open>The key of the \<open>seenTransactions\<close> set: six fields joined by a bar.\<close>

definition dedupKey :: "'n prims \<Rightarrow> 'n MsgTransaction \<Rightarrow> string" where
  "dedupKey P t =
     joinWith ''|'' [authId t, merchantNumber t, cardNumber t,
       numToString P (tranAmount t), numToString P (commission t), numToString P (netAmount t)]"

text \<open>The filter callback with the set it mutates passed along.\<close>

fun uniqueFrom :: "'n prims \<Rightarrow> string set \<Rightarrow> 'n MsgTransaction list \<Rightarrow> 'n MsgTransaction list" where
  "uniqueFrom P seen [] = []"
| "uniqueFrom P seen (t # ts) =
     (if dedupKey P t \<in> seen then uniqueFrom P seen ts
      else t # uniqueFrom P (insert (dedupKey P t) seen) ts)"

definition uniqueMsgTransactions :: "'n prims \<Rightarrow> 'n MsgTransaction list \<Rightarrow> 'n MsgTransaction list" where
  "uniqueMsgTransactions P ts = uniqueFrom P {} ts"

subsection \<open>The lookup map\<close>

text \<open>\<open>msgMap.set(t.authId, t)\<close> for each transaction in turn: a later one overwrites.\<close>

definition buildMsgMap :: "'n MsgTransaction list \<Rightarrow> (string \<rightharpoonup> 'n MsgTransaction)" where
  "buildMsgMap ts = foldl (\<lambda>m t. m(authId t \<mapsto> t)) Map.empty ts"

subsection \<open>The join\<close>

text \<open>
  The lookup of one row: nothing when the voucher number is falsy; the exact key first;
  for a string that starts with a zero and missed, the key without its leading zeros.
\<close>

definition findMatch :: "'n prims \<Rightarrow> (string \<rightharpoonup> 'n MsgTransaction) \<Rightarrow> 'n row \<Rightarrow> 'n MsgTransaction option" where
  "findMatch P msgMap r =
     (case map_of r ''Voucher No.'' of
        None \<Rightarrow> None
      | Some (Str voucherNo) \<Rightarrow>
          (if voucherNo = [] then None
           else (case msgMap voucherNo of
                   Some t \<Rightarrow> Some t
                 | None \<Rightarrow> (if startsWithZero voucherNo then msgMap (stripLeadingZeros voucherNo)
                            else None)))
      | Some (Num voucherNo) \<Rightarrow>
          (if toBoolean P voucherNo then msgMap (numToString P voucherNo) else None))"

text \<open>
  The value of the \<open>Total\<close> column as a number: a number as it is, anything else through
  \<open>parseFloat((row['Total'] || '0').toString().replace(/,/g, ''))\<close>.
\<close>

definition existingTotal :: "'n prims \<Rightarrow> 'n row \<Rightarrow> 'n" where
  "existingTotal P r =
     (case map_of r ''Total'' of
        Some (Num n) \<Rightarrow> n
      | Some (Str s) \<Rightarrow> parseFloat P (stripCommas (if s = [] then ''0'' else s))
      | None \<Rightarrow> parseFloat P (stripCommas ''0''))"

definition matchedColumns :: "'n MsgTransaction \<Rightarrow> (string \<times> 'n val) list" where
  "matchedColumns t =
     [(''AUTH'', Str (authId t)),
      (''MERCHANT NUMBER'', Str (merchantNumber t)),
      (''TRX.AMT'', Num (tranAmount t)),
      (''CARD NUMBER'', Str (cardNumber t)),
      (''COM. AMOUNT'', Num (commission t)),
      (''NET. AMT'', Num (netAmount t))]"

definition blankColumns :: "(string \<times> 'n val) list" where
  "blankColumns =
     [(''AUTH'', Str []),
      (''MERCHANT NUMBER'', Str []),
      (''TRX.AMT'', Str []),
      (''CARD NUMBER'', Str []),
      (''COM. AMOUNT'', Str []),
      (''NET. AMT'', Str [])]"

text \<open>
  The callback of \<open>excelData.map\<close>. It updates five running totals and the set
  \<open>matchedAuthIds\<close>, which are the state here, and returns the new row.
\<close>

definition joinRow ::
  "'n prims \<Rightarrow> (string \<rightharpoonup> 'n MsgTransaction) \<Rightarrow> 'n Summary \<times> string set \<Rightarrow> 'n row
     \<Rightarrow> ('n Summary \<times> string set) \<times> 'n row" where
  "joinRow P msgMap st r =
     (let (s, matchedAuthIds) = st;
          match = findMatch P msgMap r;
          e = existingTotal P r;
          s1 = (if \<not> isNaN P e then s\<lparr>totalExisting := numAdd P (totalExisting s) e\<rparr> else s)
      in case match of
           Some t \<Rightarrow>
             ((s1\<lparr>matchedCount := matchedCount s1 + 1,
                   totalTrx := numAdd P (totalTrx s1) (tranAmount t),
                   totalCommission := numAdd P (totalCommission s1) (commission t),
                   totalNet := numAdd P (totalNet s1) (netAmount t)\<rparr>,
               insert (authId t) matchedAuthIds),
              spread r (matchedColumns t))
         | None \<Rightarrow> ((s1, matchedAuthIds), spread r blankColumns))"

fun joinRows ::
  "'n prims \<Rightarrow> (string \<rightharpoonup> 'n MsgTransaction) \<Rightarrow> 'n Summary \<times> string set \<Rightarrow> 'n row list
     \<Rightarrow> ('n Summary \<times> string set) \<times> 'n row list" where
  "joinRows P msgMap st [] = (st, [])"
| "joinRows P msgMap st (r # rs) =
     (let (st1, r') = joinRow P msgMap st r;
          (st2, rs') = joinRows P msgMap st1 rs
      in (st2, r' # rs'))"

definition initialSummary :: "'n prims \<Rightarrow> 'n Summary" where
  "initialSummary P =
     \<lparr>totalExisting = numZero P, totalTrx = numZero P, totalCommission = numZero P,
      totalNet = numZero P, matchedCount = 0\<rparr>"

subsection \<open>The unmatched rows, the ordering and the assembled table\<close>

definition unmatchedRow :: "'n MsgTransaction \<Rightarrow> 'n row" where
  "unmatchedRow t =
     [(''#'', Str []), (''Voucher No.'', Str []), (''Total'', Str [])] @ matchedColumns t"

definition byMerchantNumber :: "'n prims \<Rightarrow> 'n row \<Rightarrow> 'n row \<Rightarrow> int" where
  "byMerchantNumber P a b =
     (let merchantA = trim (orEmptyToString P (map_of a ''MERCHANT NUMBER''));
          merchantB = trim (orEmptyToString P (map_of b ''MERCHANT NUMBER''))
      in if merchantA = [] \<and> merchantB \<noteq> [] then 1
         else if merchantA \<noteq> [] \<and> merchantB = [] then - 1
         else (let merchantCompare = localeCompare P merchantA merchantB
               in if merchantCompare \<noteq> 0 then merchantCompare
                  else localeCompare P (trim (orEmptyToString P (map_of a ''AUTH'')))
                         (trim (orEmptyToString P (map_of b ''AUTH'')))))"

definition totalsRow :: "'n Summary \<Rightarrow> 'n row" where
  "totalsRow s =
     [(''#'', Str []), (''Voucher No.'', Str ''TOTAL''), (''Total'', Num (totalExisting s)),
      (''AUTH'', Str []), (''MERCHANT NUMBER'', Str []), (''TRX.AMT'', Num (totalTrx s)),
      (''CARD NUMBER'', Str []), (''COM. AMOUNT'', Num (totalCommission s)),
      (''NET. AMT'', Num (totalNet s))]"

definition spacerRow :: "'n row" where
  "spacerRow =
     [(''#'', Str []), (''Voucher No.'', Str []), (''Total'', Str [])] @ blankColumns"

definition unmatchedHeaderRow :: "'n row" where
  "unmatchedHeaderRow =
     [(''#'', Str []), (''Voucher No.'', Str []), (''Total'', Str []),
      (''AUTH'', Str ''AUTH''), (''MERCHANT NUMBER'', Str ''MERCHANT NUMBER''),
      (''TRX.AMT'', Str ''TRX.AMT''), (''CARD NUMBER'', Str ''CARD NUMBER''),
      (''COM. AMOUNT'', Str ''COM. AMOUNT''), (''NET. AMT'', Str ''NET. AMT'')]"

definition processFiles :: "'n prims \<Rightarrow> 'n row list \<Rightarrow> 'n MsgTransaction list \<Rightarrow> 'n ProcessedResult" where
  "processFiles P excelData msgTransactions =
     (let uniq = uniqueMsgTransactions P msgTransactions;
          msgMap = buildMsgMap uniq;
          ((s, matchedAuthIds), updated) = joinRows P msgMap (initialSummary P, {}) excelData;
          unmatchedRows = map unmatchedRow (filter (\<lambda>t. authId t \<notin> matchedAuthIds) uniq);
          groupedUpdatedData = sortBy (byMerchantNumber P) updated;
          groupedUnmatchedRows = sortBy (byMerchantNumber P) unmatchedRows
      in \<lparr>updatedData =
            groupedUpdatedData @ [totalsRow s] @ replicate 5 spacerRow @ [unmatchedHeaderRow]
              @ groupedUnmatchedRows,
          summary = s\<rparr>)"

section \<open>parseMsgContent\<close>

text \<open>\<open>content.split('\n')\<close>, and more generally splitting at one character.\<close>

fun splitOn :: "char \<Rightarrow> string \<Rightarrow> string \<Rightarrow> string list" where
  "splitOn d cur [] = [cur]"
| "splitOn d cur (c # cs) = (if c = d then cur # splitOn d [] cs else splitOn d (cur @ [c]) cs)"

definition splitLines :: "string \<Rightarrow> string list" where
  "splitLines content = splitOn (CHR 0x0A) [] content"

text \<open>\<open>s.includes(sub)\<close>\<close>

fun stringIncludes :: "string \<Rightarrow> string \<Rightarrow> bool" where
  "stringIncludes [] sub = (sub = [])"
| "stringIncludes (c # cs) sub = (take (length sub) (c # cs) = sub \<or> stringIncludes cs sub)"

text \<open>Case folding of the \<open>i\<close> flag, on the letters the pattern has.\<close>

definition toUpper :: "char \<Rightarrow> char" where
  "toUpper c =
     (case map_of (zip ''abcdefghijklmnopqrstuvwxyz'' ''ABCDEFGHIJKLMNOPQRSTUVWXYZ'') c of
        Some u \<Rightarrow> u
      | None \<Rightarrow> c)"

text \<open>
  \<open>/MERCHANT NUMBER\s*:\s*(\d+)/i\<close>: the match that starts at the head of the string,
  then the leftmost match anywhere in it. The result is the captured digits.
\<close>

definition merchantMatchAt :: "string \<Rightarrow> string option" where
  "merchantMatchAt s =
     (if map toUpper (take 15 s) = ''MERCHANT NUMBER''
      then (case dropWhile isSpace (drop 15 s) of
              [] \<Rightarrow> None
            | c # rest \<Rightarrow>
                (if c = CHR '':''
                 then (let digits = takeWhile isDigit (dropWhile isSpace rest)
                       in if digits = [] then None else Some digits)
                 else None))
      else None)"

fun merchantMatch :: "string \<Rightarrow> string option" where
  "merchantMatch [] = None"
| "merchantMatch (c # cs) =
     (case merchantMatchAt (c # cs) of Some digits \<Rightarrow> Some digits | None \<Rightarrow> merchantMatch cs)"

text \<open>
  \<open>line.trim().match(/^\d{6}[X\d]+\d{4}/)\<close>: six digits, then a run of digits and
  \<open>X\<close> in which, after at least one character, four digits in a row stand.
\<close>

definition isDataLine :: "string \<Rightarrow> bool" where
  "isDataLine line =
     (let t = trim line;
          run = takeWhile (\<lambda>c. c = CHR ''X'' \<or> isDigit c) (drop 6 t)
      in length (take 6 t) = 6 \<and> list_all isDigit (take 6 t)
         \<and> list_ex (\<lambda>i. list_all isDigit (take 4 (drop i run))) [1 ..< length run - 3])"

text \<open>
  \<open>s.split(/\s{2,}/)\<close>: a run of two or more white-space characters ends the current
  field; a single white-space character belongs to its field.
\<close>

function splitFields :: "string \<Rightarrow> string \<Rightarrow> string list" where
  "splitFields cur [] = [cur]"
| "splitFields cur [c] = [cur @ [c]]"
| "splitFields cur (c # d # cs) =
     (if isSpace c \<and> isSpace d then cur # splitFields [] (dropWhile isSpace cs)
      else splitFields (cur @ [c]) (d # cs))"
  by pat_completeness auto
termination
  by (relation "measure (\<lambda>(cur, s). length s)")
     (auto simp: length_dropWhile_le le_imp_less_Suc less_SucI)

text \<open>
  One turn of the loop over the lines. The state is the merchant number in effect, the
  \<open>inTable\<close> flag and the transactions pushed so far.
\<close>

definition parseLine ::
  "'n prims \<Rightarrow> string \<times> bool \<times> 'n MsgTransaction list \<Rightarrow> string
     \<Rightarrow> string \<times> bool \<times> 'n MsgTransaction list" where
  "parseLine P st line =
     (let (merchantNumber0, inTable, transactions) = st;
          merchantNo = (case merchantMatch line of Some digits \<Rightarrow> digits | None \<Rightarrow> merchantNumber0)
      in if stringIncludes line ''Visa / Master Transactions'' then (merchantNo, inTable, transactions)
         else if stringIncludes line ''====='' then (merchantNo, \<not> inTable, transactions)
         else if isDataLine line
         then (let parts = splitFields [] (trim line)
               in if length parts \<ge> 9
                  then (merchantNo, inTable,
                        transactions @
                          [\<lparr>merchantNumber = merchantNo,
                            cardNumber = parts ! 0,
                            tranAmount = parseFloat P (stripCommas (parts ! 3)),
                            commission = parseFloat P (stripCommas (parts ! 5)),
                            netAmount = parseFloat P (stripCommas (parts ! 6)),
                            authId = parts ! 8\<rparr>])
                  else (merchantNo, inTable, transactions))
         else (merchantNo, inTable, transactions))"

definition parseMsgContent :: "'n prims \<Rightarrow> string \<Rightarrow> 'n MsgTransaction list" where
  "parseMsgContent P content =
     snd (snd (foldl (parseLine P) ([], False, []) (splitLines content)))"

section \<open>The driver, handleProcess\<close>

text \<open>
  The driver reads the files, which is input and output; here the outcome of that part
  is an argument: either something threw, or the spreadsheet rows, the transactions of
  all log files and the list of skipped-file messages were extracted. The React state
  the driver sets is a record.
\<close>

record 'n AppState =
  isProcessing :: bool
  result :: "'n ProcessedResult option"
  error :: "string option"
  fileIssues :: "string list"

datatype 'n extraction = Threw | Extracted "'n row list" "'n MsgTransaction list" "string list"

definition handleProcess ::
  "'n prims \<Rightarrow> bool \<Rightarrow> nat \<Rightarrow> 'n extraction \<Rightarrow> 'n AppState \<Rightarrow> 'n AppState" where
  "handleProcess P excelFilePresent msgFilesLength ext st =
     (if \<not> excelFilePresent \<or> msgFilesLength = 0
      then st\<lparr>error := Some ''Please upload both the Excel file and the MSG folder.''\<rparr>
      else (let st1 = st\<lparr>isProcessing := True, error := None, result := None, fileIssues := []\<rparr>
            in case ext of
                 Threw \<Rightarrow>
                   st1\<lparr>error := Some ''An error occurred during processing. Please check your files.'',
                       isProcessing := False\<rparr>
               | Extracted excelData msgTransactions issues \<Rightarrow>
                   (let st2 = st1\<lparr>fileIssues := issues\<rparr>
                    in if length msgTransactions = 0
                       then st2\<lparr>error := Some ''No valid transactions found in the uploaded text files.'',
                                isProcessing := False\<rparr>
                       else st2\<lparr>result := Some (processFiles P excelData msgTransactions),
                                isProcessing := False\<rparr>)))"

section \<open>A reference instance of the primitives\<close>

text \<open>
  Modelled from the ECMAScript specification, not from this repository: the primitives
  read over exact decimal numbers, with \<open>NaN\<close>. Addition does not round, \<open>Infinity\<close>
  does not exist, and \<open>toString\<close> prints plain decimal notation, so the instance agrees
  with JavaScript on the decimal amounts that spreadsheets and statements carry and not
  on the whole range of doubles. The comparison orders digit runs by their value and
  before every other character, and other characters by their code. The instance only
  runs the examples; no general theorem depends on it.
\<close>

datatype number = NaN | Fin rat

definition addNumber :: "number \<Rightarrow> number \<Rightarrow> number" where
  "addNumber a b = (case (a, b) of (Fin x, Fin y) \<Rightarrow> Fin (x + y) | _ \<Rightarrow> NaN)"

definition digitChar :: "nat \<Rightarrow> char" where
  "digitChar d = ''0123456789'' ! (d mod 10)"

definition digitValue :: "char \<Rightarrow> nat" where
  "digitValue c =
     (case map_of [(CHR ''0'', 0), (CHR ''1'', 1), (CHR ''2'', 2), (CHR ''3'', 3), (CHR ''4'', 4),
                   (CHR ''5'', 5), (CHR ''6'', 6), (CHR ''7'', 7), (CHR ''8'', 8), (CHR ''9'', 9)] c of
        Some d \<Rightarrow> d
      | None \<Rightarrow> 0)"

definition natOfDigits :: "string \<Rightarrow> nat" where
  "natOfDigits ds = foldl (\<lambda>acc c. 10 * acc + digitValue c) 0 ds"

fun showNat :: "nat \<Rightarrow> string" where
  "showNat n = (if n < 10 then [digitChar n] else showNat (n div 10) @ [digitChar n])"

fun showFraction :: "nat \<Rightarrow> rat \<Rightarrow> string" where
  "showFraction 0 r = []"
| "showFraction (Suc fuel) r =
     (if r = 0 then []
      else digitChar (nat \<lfloor>r * 10\<rfloor>) # showFraction fuel (r * 10 - of_int \<lfloor>r * 10\<rfloor>))"

definition showNumber :: "number \<Rightarrow> string" where
  "showNumber x =
     (case x of
        NaN \<Rightarrow> ''NaN''
      | Fin r \<Rightarrow>
          (let a = \<bar>r\<bar>; whole = nat \<lfloor>a\<rfloor>; frac = a - of_nat whole
           in (if r < 0 then ''-'' else []) @ showNat whole
              @ (if frac = 0 then [] else ''.'' @ showFraction 20 frac)))"

text \<open>
  \<open>parseFloat\<close>: leading white space, a sign, digits with an optional fraction, an
  optional exponent; the longest such prefix counts and the rest is ignored.
\<close>

definition readExponent :: "string \<Rightarrow> int" where
  "readExponent s =
     (case s of
        [] \<Rightarrow> 0
      | c # rest \<Rightarrow>
          (if c = CHR ''e'' \<or> c = CHR ''E''
           then (let neg = (rest \<noteq> [] \<and> hd rest = CHR ''-'');
                     signed = (rest \<noteq> [] \<and> (hd rest = CHR ''-'' \<or> hd rest = CHR ''+''));
                     digits = takeWhile isDigit (if signed then tl rest else rest)
                 in if digits = [] then 0
                    else if neg then - int (natOfDigits digits) else int (natOfDigits digits))
           else 0))"

definition readNumber :: "string \<Rightarrow> number" where
  "readNumber s =
     (let t = dropWhile isSpace s;
          neg = (t \<noteq> [] \<and> hd t = CHR ''-'');
          signed = (t \<noteq> [] \<and> (hd t = CHR ''-'' \<or> hd t = CHR ''+''));
          u = (if signed then tl t else t);
          whole = takeWhile isDigit u;
          r1 = dropWhile isDigit u;
          dotted = (r1 \<noteq> [] \<and> hd r1 = CHR ''.'');
          frac = (if dotted then takeWhile isDigit (tl r1) else []);
          r2 = (if dotted then dropWhile isDigit (tl r1) else r1);
          e = readExponent r2;
          m = of_nat (natOfDigits whole) + of_nat (natOfDigits frac) / 10 ^ length frac;
          v = (if e < 0 then m / 10 ^ nat (- e) else m * 10 ^ nat e)
      in if whole = [] \<and> frac = [] then NaN else Fin (if neg then - v else v))"

function collationKey :: "string \<Rightarrow> (nat \<times> nat) list" where
  "collationKey [] = []"
| "collationKey (c # cs) =
     (if isDigit c
      then (0, natOfDigits (c # takeWhile isDigit cs)) # collationKey (dropWhile isDigit cs)
      else (1, of_char c) # collationKey cs)"
  by pat_completeness auto
termination
  by (relation "measure length") (auto simp: length_dropWhile_le le_imp_less_Suc)

definition numericCompare :: "string \<Rightarrow> string \<Rightarrow> int" where
  "numericCompare a b =
     (if collationKey a < collationKey b then - 1
      else if collationKey a = collationKey b then 0 else 1)"

definition decimalPrims :: "number prims" where
  "decimalPrims =
     \<lparr>numAdd = addNumber, numZero = Fin 0, isNaN = (\<lambda>x. x = NaN),
      toBoolean = (\<lambda>x. x \<noteq> NaN \<and> x \<noteq> Fin 0), numToString = showNumber,
      parseFloat = readNumber, localeCompare = numericCompare\<rparr>"

section \<open>Sample inputs\<close>

text \<open>A transaction and a spreadsheet row of the reference instance, for the examples.\<close>

definition sampleTx :: "string \<Rightarrow> string \<Rightarrow> rat \<Rightarrow> rat \<Rightarrow> number MsgTransaction" where
  "sampleTx auth merchant amount fee =
     \<lparr>merchantNumber = merchant, cardNumber = ''532016XXXXXX3032'', tranAmount = Fin amount,
      commission = Fin fee, netAmount = Fin (amount - fee), authId = auth\<rparr>"

definition voucherRow :: "number val \<Rightarrow> number val \<Rightarrow> number row" where
  "voucherRow v tot = [(''Voucher No.'', v), (''Total'', tot)]"

text \<open>
  Two spreadsheet rows for one payment, the voucher number once as the log has it and
  once with a leading zero, and the transaction of that payment.
\<close>

definition twoVoucherRows :: "number row list" where
  "twoVoucherRows =
     [voucherRow (Str ''74680'') (Str ''1,000''), voucherRow (Str ''074680'') (Num (Fin 5))]"

definition oneTransaction :: "number MsgTransaction list" where
  "oneTransaction = [sampleTx ''74680'' ''3010147'' 100 2]"

text \<open>Two transactions that differ in the amount and share the authorization id.\<close>

definition sameAuthTransactions :: "number MsgTransaction list" where
  "sameAuthTransactions =
     [sampleTx ''74680'' ''3010147'' 100 2, sampleTx ''74680'' ''3010147'' 250 5]"

text \<open>
  A row with voucher number \<open>"0"\<close> before the two rows above, and a transaction with an
  empty authorization id before the one above.
\<close>

definition threeVoucherRows :: "number row list" where
  "threeVoucherRows = voucherRow (Str ''0'') (Str ''10'') # twoVoucherRows"

definition twoTransactions :: "number MsgTransaction list" where
  "twoTransactions = sampleTx [] ''3010147'' 5 1 # oneTransaction"

text \<open>The same payment under both spellings of its authorization id.\<close>

definition bothKeyTransactions :: "number MsgTransaction list" where
  "bothKeyTransactions =
     [sampleTx ''74680'' ''3010147'' 100 2, sampleTx ''074680'' ''3010147'' 250 5]"

text \<open>Transactions with the authorization ids \<open>"0"\<close> and \<open>""\<close>.\<close>

definition zeroIdTransactions :: "number MsgTransaction list" where
  "zeroIdTransactions = [sampleTx ''0'' ''3010147'' 100 2, sampleTx [] ''3010147'' 250 5]"

text \<open>A row of a spreadsheet that was reconciled before: it has an AUTH column.\<close>

definition reconciledRow :: "number row" where
  "reconciledRow =
     [(''Voucher No.'', Str ''74680''), (''Total'', Str ''1,000''), (''Remarks'', Str ''paid''),
      (''AUTH'', Str ''74680'')]"

text \<open>A transaction of any number type with a given merchant number and authorization id.\<close>

definition merchantTx :: "'n \<Rightarrow> string \<Rightarrow> string \<Rightarrow> 'n MsgTransaction" where
  "merchantTx x merchant auth =
     \<lparr>merchantNumber = merchant, cardNumber = ''532016XXXXXX3032'', tranAmount = x,
      commission = x, netAmount = x, authId = auth\<rparr>"

text \<open>The data line of the specification, fields two spaces apart.\<close>

definition sampleLine :: string where
  "sampleLine = ''532016XXXXXX3032  EDC  144  49,900.00  49,900.00  898.20  49,001.80  02/02/2026  074680  37012252''"

text \<open>
  The three rows above, a row whose \<open>Total\<close> is not a number and a row without a \<open>Total\<close>;
  and a transaction list in which every transaction stands twice, one of them with an
  authorization id that no row carries.
\<close>

definition mixedRows :: "number row list" where
  "mixedRows =
     threeVoucherRows @ [voucherRow (Str ''11111'') (Str ''n/a''), [(''Voucher No.'', Str ''22222'')]]"

definition repeatedTransactions :: "number MsgTransaction list" where
  "repeatedTransactions =
     twoTransactions @ [sampleTx ''55555'' ''3010147'' 40 1]
     @ twoTransactions @ [sampleTx ''55555'' ''3010147'' 40 1]"

text \<open>
  Lines of a log file: a merchant line, the data line indented and with a carriage
  return at its end, the data line with a separator after it, a merchant line in lower
  case, a data line of eight fields; and a file of these lines.
\<close>

definition merchantLine :: string where
  "merchantLine = ''MERCHANT NUMBER      :3010147''"

definition indentedLine :: string where
  "indentedLine = ''  '' @ sampleLine @ [CHR 0x0D]"

definition markedLine :: string where
  "markedLine = sampleLine @ ''  =====''"

definition lowerMerchantLine :: string where
  "lowerMerchantLine = ''merchant number : 42 x''"

definition shortLine :: string where
  "shortLine = ''532016XXXXXX3032  EDC  144  49,900.00  49,900.00  898.20  49,001.80  02/02/2026''"

definition sampleContent :: string where
  "sampleContent =
     joinWith [CHR 0x0A]
       [merchantLine, indentedLine, ''====='', markedLine, lowerMerchantLine, shortLine, sampleLine]"

section \<open>Notions used to state the properties\<close>

text \<open>
  The transactions that the rows of the spreadsheet hit, in the order of the rows; a
  transaction that two rows hit stands twice.
\<close>

definition joinHits :: "'n prims \<Rightarrow> (string \<rightharpoonup> 'n MsgTransaction) \<Rightarrow> 'n row list \<Rightarrow> 'n MsgTransaction list" where
  "joinHits P msgMap rs = List.map_filter (findMatch P msgMap) rs"

definition joinedTransactions :: "'n prims \<Rightarrow> 'n row list \<Rightarrow> 'n MsgTransaction list \<Rightarrow> 'n MsgTransaction list" where
  "joinedTransactions P excelData msgTransactions =
     joinHits P (buildMsgMap (uniqueMsgTransactions P msgTransactions)) excelData"

text \<open>The deduplicated transactions whose authorization id no row hit.\<close>

definition unmatchedTransactions :: "'n prims \<Rightarrow> 'n row list \<Rightarrow> 'n MsgTransaction list \<Rightarrow> 'n MsgTransaction list" where
  "unmatchedTransactions P excelData msgTransactions =
     filter (\<lambda>t. authId t \<notin> authId ` set (joinedTransactions P excelData msgTransactions))
       (uniqueMsgTransactions P msgTransactions)"

text \<open>The row that the join returns for one spreadsheet row, and for all of them.\<close>

definition augmentedRow :: "'n prims \<Rightarrow> (string \<rightharpoonup> 'n MsgTransaction) \<Rightarrow> 'n row \<Rightarrow> 'n row" where
  "augmentedRow P msgMap r =
     (case findMatch P msgMap r of
        Some t \<Rightarrow> spread r (matchedColumns t)
      | None \<Rightarrow> spread r blankColumns)"

definition augmentedRows :: "'n prims \<Rightarrow> 'n row list \<Rightarrow> 'n MsgTransaction list \<Rightarrow> 'n row list" where
  "augmentedRows P excelData msgTransactions =
     map (augmentedRow P (buildMsgMap (uniqueMsgTransactions P msgTransactions))) excelData"

text \<open>The summary after the \<open>Total\<close> column of a row was accumulated.\<close>

definition addExisting :: "'n prims \<Rightarrow> 'n Summary \<Rightarrow> 'n row \<Rightarrow> 'n Summary" where
  "addExisting P s r =
     (if \<not> isNaN P (existingTotal P r)
      then s\<lparr>totalExisting := numAdd P (totalExisting s) (existingTotal P r)\<rparr> else s)"

definition derivedColumnNames :: "string list" where
  "derivedColumnNames =
     [''AUTH'', ''MERCHANT NUMBER'', ''TRX.AMT'', ''CARD NUMBER'', ''COM. AMOUNT'', ''NET. AMT'']"

text \<open>How many rows of a table carry a given value in the \<open>AUTH\<close> column.\<close>

definition authCount :: "string \<Rightarrow> 'n row list \<Rightarrow> nat" where
  "authCount a rs = length (filter (\<lambda>r. map_of r ''AUTH'' = Some (Str a)) rs)"

text \<open>How many rows of a table have a non-blank \<open>AUTH\<close> column.\<close>

definition nonBlankAuthCount :: "'n row list \<Rightarrow> nat" where
  "nonBlankAuthCount rs = length (filter (\<lambda>r. map_of r ''AUTH'' \<noteq> Some (Str [])) rs)"

text \<open>
  The two keys that \<open>byMerchantNumber\<close> reads off a row, and the order the specification
  words: rows with an empty merchant number last, then the merchant numbers under the
  comparison, then the authorization ids under the same comparison.
\<close>

definition merchantOf :: "'n prims \<Rightarrow> 'n row \<Rightarrow> string" where
  "merchantOf P r = trim (orEmptyToString P (map_of r ''MERCHANT NUMBER''))"

definition authOf :: "'n prims \<Rightarrow> 'n row \<Rightarrow> string" where
  "authOf P r = trim (orEmptyToString P (map_of r ''AUTH''))"

definition inMerchantOrder :: "'n prims \<Rightarrow> 'n row \<Rightarrow> 'n row \<Rightarrow> bool" where
  "inMerchantOrder P a b =
     ((merchantOf P a = [] \<longrightarrow> merchantOf P b = [])
      \<and> ((merchantOf P a = []) = (merchantOf P b = []) \<longrightarrow>
           localeCompare P (merchantOf P a) (merchantOf P b) \<le> 0
           \<and> (localeCompare P (merchantOf P a) (merchantOf P b) = 0 \<longrightarrow>
                localeCompare P (authOf P a) (authOf P b) \<le> 0)))"

text \<open>
  A string with no two white-space characters in a row that does not end in one: what
  stands between two separators of \<open>/\\s{2,}/\<close>.
\<close>

fun singleSpaced :: "string \<Rightarrow> bool" where
  "singleSpaced [] = True"
| "singleSpaced [c] = (\<not> isSpace c)"
| "singleSpaced (c # d # cs) = (\<not> (isSpace c \<and> isSpace d) \<and> singleSpaced (d # cs))"

text \<open>
  What one line adds under a given merchant number, and the merchant number in effect
  after a list of lines: the digits of the last line that matched the merchant pattern.
\<close>

definition lineTransactions :: "'n prims \<Rightarrow> string \<Rightarrow> string \<Rightarrow> 'n MsgTransaction list" where
  "lineTransactions P merchantNo line =
     (let parts = splitFields [] (trim line)
      in if stringIncludes line ''Visa / Master Transactions'' \<or> stringIncludes line ''=====''
         then []
         else if isDataLine line \<and> 9 \<le> length parts
         then [\<lparr>merchantNumber = merchantNo, cardNumber = parts ! 0,
                tranAmount = parseFloat P (stripCommas (parts ! 3)),
                commission = parseFloat P (stripCommas (parts ! 5)),
                netAmount = parseFloat P (stripCommas (parts ! 6)),
                authId = parts ! 8\<rparr>]
         else [])"

definition merchantInEffect :: "string list \<Rightarrow> string" where
  "merchantInEffect ls =
     (let found = List.map_filter merchantMatch ls in if found = [] then [] else last found)"

section \<open>Running the examples\<close>

text \<open>The equations that evaluate the model on a concrete input.\<close>

declare showNat.simps [simp del]

lemma decimalPrims_simps [simp]:
  "numAdd decimalPrims = addNumber"
  "numZero decimalPrims = Fin 0"
  "isNaN decimalPrims = (\<lambda>x. x = NaN)"
  "toBoolean decimalPrims = (\<lambda>x. x \<noteq> NaN \<and> x \<noteq> Fin 0)"
  "numToString decimalPrims = showNumber"
  "parseFloat decimalPrims = readNumber"
  "localeCompare decimalPrims = numericCompare"
  by (simp_all add: decimalPrims_def)

lemmas prims_eval =
  addNumber_def showNumber_def showNat.simps digitChar_def readNumber_def
  readExponent_def natOfDigits_def digitValue_def numericCompare_def isSpace_def isDigit_def

lemmas engine_eval =
  processFiles_def uniqueMsgTransactions_def dedupKey_def buildMsgMap_def joinRow_def
  findMatch_def existingTotal_def matchedColumns_def blankColumns_def spread_def
  initialSummary_def unmatchedRow_def byMerchantNumber_def sortBy_def totalsRow_def
  spacerRow_def unmatchedHeaderRow_def orEmptyToString_def trim_def stripCommas_def
  stripLeadingZeros_def startsWithZero_def Let_def

lemmas sample_eval =
  sampleTx_def voucherRow_def twoVoucherRows_def oneTransaction_def sameAuthTransactions_def
  threeVoucherRows_def twoTransactions_def

lemmas notion_eval =
  joinedTransactions_def joinHits_def authCount_def nonBlankAuthCount_def

section \<open>Deduplication\<close>

lemma uniqueFrom_seen_all:
  "dedupKey P ` set ts \<subseteq> seen \<Longrightarrow> uniqueFrom P seen ts = []"
  by (induction ts) auto

lemma uniqueFrom_append:
  "uniqueFrom P seen (xs @ ys) =
     uniqueFrom P seen xs @ uniqueFrom P (seen \<union> dedupKey P ` set xs) ys"
proof (induction xs arbitrary: seen)
  case Nil
  show ?case by simp
next
  case (Cons x xs)
  show ?case
  proof (cases "dedupKey P x \<in> seen")
    case True
    then have "insert (dedupKey P x) (seen \<union> dedupKey P ` set xs) = seen \<union> dedupKey P ` set xs"
      by auto
    with True show ?thesis by (simp add: Cons.IH)
  next
    case False
    then show ?thesis by (simp add: Cons.IH)
  qed
qed

text \<open>
  C5. Reconciling against a transaction list concatenated with itself gives the same
  table and the same summary as reconciling against the list once.
\<close>

theorem processFiles_dedup_idempotent:
  "processFiles P excelData (L @ L) = processFiles P excelData L"
proof -
  have "uniqueFrom P ({} \<union> dedupKey P ` set L) L = []"
    by (rule uniqueFrom_seen_all) simp
  then have "uniqueMsgTransactions P (L @ L) = uniqueMsgTransactions P L"
    by (simp add: uniqueMsgTransactions_def uniqueFrom_append)
  then show ?thesis
    by (simp add: processFiles_def)
qed

section \<open>The join, row by row\<close>

lemma addExisting_fields [simp]:
  "matchedCount (addExisting P s r) = matchedCount s"
  "totalTrx (addExisting P s r) = totalTrx s"
  "totalCommission (addExisting P s r) = totalCommission s"
  "totalNet (addExisting P s r) = totalNet s"
  by (simp_all add: addExisting_def)

lemma joinRow_None:
  "findMatch P m r = None \<Longrightarrow>
     joinRow P m (s, A) r = ((addExisting P s r, A), spread r blankColumns)"
  by (simp add: joinRow_def addExisting_def Let_def)

lemma joinRow_Some:
  "findMatch P m r = Some t \<Longrightarrow>
     joinRow P m (s, A) r =
       (((addExisting P s r)\<lparr>matchedCount := matchedCount s + 1,
            totalTrx := numAdd P (totalTrx s) (tranAmount t),
            totalCommission := numAdd P (totalCommission s) (commission t),
            totalNet := numAdd P (totalNet s) (netAmount t)\<rparr>,
         insert (authId t) A),
        spread r (matchedColumns t))"
  by (simp add: joinRow_def addExisting_def Let_def)

lemma joinRows_Cons:
  "joinRows P m st (r # rs) =
     (fst (joinRows P m (fst (joinRow P m st r)) rs),
      snd (joinRow P m st r) # snd (joinRows P m (fst (joinRow P m st r)) rs))"
  by (simp add: Let_def split: prod.splits)

lemma joinHits_Nil [simp]: "joinHits P m [] = []"
  by (simp add: joinHits_def)

lemma joinHits_None [simp]:
  "findMatch P m r = None \<Longrightarrow> joinHits P m (r # rs) = joinHits P m rs"
  by (simp add: joinHits_def)

lemma joinHits_Some [simp]:
  "findMatch P m r = Some t \<Longrightarrow> joinHits P m (r # rs) = t # joinHits P m rs"
  by (simp add: joinHits_def)

lemma joinRows_rows: "snd (joinRows P m st rs) = map (augmentedRow P m) rs"
proof (induction rs arbitrary: st)
  case Nil
  show ?case by simp
next
  case (Cons r rs)
  obtain s A where st: "st = (s, A)" by (cases st)
  have "snd (joinRow P m st r) = augmentedRow P m r"
    by (cases "findMatch P m r") (simp_all add: st joinRow_None joinRow_Some augmentedRow_def)
  then show ?case
    by (simp only: joinRows_Cons snd_conv Cons.IH list.map)
qed

lemma joinRows_matchedAuthIds:
  "snd (fst (joinRows P m (s, A) rs)) = A \<union> authId ` set (joinHits P m rs)"
proof (induction rs arbitrary: s A)
  case Nil
  show ?case by simp
next
  case (Cons r rs)
  show ?case
    by (cases "findMatch P m r")
       (simp_all only: joinRows_Cons joinRow_None joinRow_Some fst_conv Cons.IH
          joinHits_None joinHits_Some, auto)
qed

lemma joinRows_matchedCount:
  "matchedCount (fst (fst (joinRows P m (s, A) rs))) = matchedCount s + length (joinHits P m rs)"
proof (induction rs arbitrary: s A)
  case Nil
  show ?case by simp
next
  case (Cons r rs)
  show ?case
    by (cases "findMatch P m r")
       (simp_all only: joinRows_Cons joinRow_None joinRow_Some fst_conv Cons.IH
          joinHits_None joinHits_Some, simp_all)
qed

lemma joinRows_totalTrx:
  "totalTrx (fst (fst (joinRows P m (s, A) rs))) =
     foldl (numAdd P) (totalTrx s) (map tranAmount (joinHits P m rs))"
proof (induction rs arbitrary: s A)
  case Nil
  show ?case by simp
next
  case (Cons r rs)
  show ?case
    by (cases "findMatch P m r")
       (simp_all only: joinRows_Cons joinRow_None joinRow_Some fst_conv Cons.IH
          joinHits_None joinHits_Some, simp_all)
qed

lemma joinRows_totalCommission:
  "totalCommission (fst (fst (joinRows P m (s, A) rs))) =
     foldl (numAdd P) (totalCommission s) (map commission (joinHits P m rs))"
proof (induction rs arbitrary: s A)
  case Nil
  show ?case by simp
next
  case (Cons r rs)
  show ?case
    by (cases "findMatch P m r")
       (simp_all only: joinRows_Cons joinRow_None joinRow_Some fst_conv Cons.IH
          joinHits_None joinHits_Some, simp_all)
qed

lemma joinRows_totalNet:
  "totalNet (fst (fst (joinRows P m (s, A) rs))) =
     foldl (numAdd P) (totalNet s) (map netAmount (joinHits P m rs))"
proof (induction rs arbitrary: s A)
  case Nil
  show ?case by simp
next
  case (Cons r rs)
  show ?case
    by (cases "findMatch P m r")
       (simp_all only: joinRows_Cons joinRow_None joinRow_Some fst_conv Cons.IH
          joinHits_None joinHits_Some, simp_all)
qed

lemma insertBy_mset: "mset (insertBy cmp x ys) = add_mset x (mset ys)"
  by (induction ys) simp_all

lemma sortBy_mset: "mset (sortBy cmp xs) = mset xs"
  by (induction xs) (simp_all add: sortBy_def insertBy_mset)

lemma sortBy_length: "length (sortBy cmp xs) = length xs"
  using sortBy_mset [of cmp xs] by (metis size_mset)

lemma processFiles_updatedData:
  "updatedData (processFiles P excelData msgTransactions) =
     sortBy (byMerchantNumber P) (augmentedRows P excelData msgTransactions)
     @ [totalsRow (summary (processFiles P excelData msgTransactions))]
     @ replicate 5 spacerRow @ [unmatchedHeaderRow]
     @ sortBy (byMerchantNumber P) (map unmatchedRow (unmatchedTransactions P excelData msgTransactions))"
proof -
  define m where "m = buildMsgMap (uniqueMsgTransactions P msgTransactions)"
  obtain s A updated where jr: "joinRows P m (initialSummary P, {}) excelData = ((s, A), updated)"
    by (metis surj_pair)
  have "updated = map (augmentedRow P m) excelData"
    using joinRows_rows [of P m "(initialSummary P, {})" excelData] by (simp add: jr)
  moreover have "A = authId ` set (joinHits P m excelData)"
    using joinRows_matchedAuthIds [of P m "initialSummary P" "{}" excelData] by (simp add: jr)
  ultimately show ?thesis
    using jr
    by (simp add: processFiles_def Let_def m_def [symmetric] augmentedRows_def
        unmatchedTransactions_def joinedTransactions_def)
qed

lemma processFiles_summary:
  "summary (processFiles P excelData msgTransactions) =
     fst (fst (joinRows P (buildMsgMap (uniqueMsgTransactions P msgTransactions)) (initialSummary P, {}) excelData))"
  by (simp add: processFiles_def Let_def split_beta)

lemma processFiles_layout:
  "(let out = updatedData (processFiles P excelData msgTransactions);
        s = summary (processFiles P excelData msgTransactions);
        n = length excelData
    in length out = n + 1 + 5 + 1 + length (unmatchedTransactions P excelData msgTransactions)
       \<and> mset (take n out) = mset (augmentedRows P excelData msgTransactions)
       \<and> out ! n = totalsRow s
       \<and> map_of (out ! n) ''Voucher No.'' = Some (Str ''TOTAL'')
       \<and> map_of (out ! n) ''Total'' = Some (Num (totalExisting s))
       \<and> map_of (out ! n) ''TRX.AMT'' = Some (Num (totalTrx s))
       \<and> map_of (out ! n) ''COM. AMOUNT'' = Some (Num (totalCommission s))
       \<and> map_of (out ! n) ''NET. AMT'' = Some (Num (totalNet s))
       \<and> take 5 (drop (n + 1) out) = replicate 5 spacerRow
       \<and> out ! (n + 6) = unmatchedHeaderRow
       \<and> mset (drop (n + 7) out)
           = mset (map unmatchedRow (unmatchedTransactions P excelData msgTransactions)))"
proof -
  define A where "A = sortBy (byMerchantNumber P) (augmentedRows P excelData msgTransactions)"
  define U where "U = sortBy (byMerchantNumber P)
    (map unmatchedRow (unmatchedTransactions P excelData msgTransactions))"
  define s where "s = summary (processFiles P excelData msgTransactions)"
  have out: "updatedData (processFiles P excelData msgTransactions) =
      A @ totalsRow s # replicate 5 spacerRow @ unmatchedHeaderRow # U"
    by (simp add: processFiles_updatedData A_def U_def s_def)
  have lenA: "length A = length excelData"
    by (simp add: A_def sortBy_length augmentedRows_def)
  have lenU: "length U = length (unmatchedTransactions P excelData msgTransactions)"
    by (simp add: U_def sortBy_length)
  have msA: "mset A = mset (augmentedRows P excelData msgTransactions)"
    by (simp add: A_def sortBy_mset)
  have msU: "mset U = mset (map unmatchedRow (unmatchedTransactions P excelData msgTransactions))"
    by (simp add: U_def sortBy_mset)
  have nth6: "(A @ totalsRow s # replicate 5 spacerRow @ unmatchedHeaderRow # U) ! (length A + 6)
      = unmatchedHeaderRow"
    by (simp add: nth_append nth_Cons')
  show ?thesis
    unfolding Let_def out s_def [symmetric]
    using lenA lenU msA msU nth6
    by (simp add: nth_append totalsRow_def)
qed



section \<open>Columns, the lookup map and counting rows\<close>

lemma map_of_spread: "map_of (spread r kvs) = map_of r ++ map_of (rev kvs)"
proof (induction kvs arbitrary: r)
  case Nil
  show ?case by (simp add: spread_def)
next
  case (Cons kv kvs)
  obtain k v where kv: "kv = (k, v)" by (cases kv)
  have "map_of (spread r (kv # kvs)) = map_of (AList.update k v r) ++ map_of (rev kvs)"
    using Cons.IH [of "AList.update k v r"] by (simp add: spread_def kv)
  also have "\<dots> = (map_of r)(k \<mapsto> v) ++ map_of (rev kvs)"
    by (simp only: update_conv')
  also have "\<dots> = map_of r ++ map_of (rev (kv # kvs))"
    by (simp add: kv)
  finally show ?case .
qed

lemma map_of_spread_other:
  "k \<notin> fst ` set kvs \<Longrightarrow> map_of (spread r kvs) k = map_of r k"
  by (simp add: map_of_spread map_add_dom_app_simps(3) dom_map_of_conv_image_fst)

lemma keys_spread: "fst ` set (spread r kvs) = fst ` set r \<union> fst ` set kvs"
proof -
  have "dom (map_of (spread r kvs)) = dom (map_of r) \<union> dom (map_of (rev kvs))"
    by (simp add: map_of_spread Un_commute)
  then show ?thesis
    by (simp add: dom_map_of_conv_image_fst)
qed

lemma map_of_matchedColumns_AUTH [simp]:
  "map_of (spread r (matchedColumns t)) ''AUTH'' = Some (Str (authId t))"
  by (simp add: map_of_spread matchedColumns_def map_add_def)

lemma map_of_blankColumns_AUTH [simp]:
  "map_of (spread r blankColumns) ''AUTH'' = Some (Str [])"
  by (simp add: map_of_spread blankColumns_def map_add_def)

lemma map_of_unmatchedRow_AUTH [simp]:
  "map_of (unmatchedRow t) ''AUTH'' = Some (Str (authId t))"
  by (simp add: unmatchedRow_def matchedColumns_def)

lemma buildMsgMap_snoc: "buildMsgMap (ts @ [t]) = (buildMsgMap ts)(authId t \<mapsto> t)"
  by (simp add: buildMsgMap_def)

lemma buildMsgMap_lookup:
  "buildMsgMap ts k =
     (if filter (\<lambda>t. authId t = k) ts = [] then None
      else Some (last (filter (\<lambda>t. authId t = k) ts)))"
proof (induction ts rule: rev_induct)
  case Nil
  show ?case by (simp add: buildMsgMap_def)
next
  case (snoc t ts)
  show ?case
    by (simp add: buildMsgMap_snoc snoc.IH)
qed

lemma buildMsgMap_Some:
  assumes "buildMsgMap ts k = Some t"
  shows "t \<in> set ts \<and> authId t = k"
proof -
  let ?xs = "filter (\<lambda>t. authId t = k) ts"
  from assms have ne: "?xs \<noteq> []" and t: "t = last ?xs"
    by (auto simp: buildMsgMap_lookup split: if_splits)
  from ne have "last ?xs \<in> set ?xs" by (rule last_in_set)
  with t show ?thesis by simp
qed

lemma findMatch_Some_in:
  "findMatch P (buildMsgMap ts) r = Some t \<Longrightarrow> t \<in> set ts"
  by (auto simp: findMatch_def split: option.splits val.splits if_splits dest: buildMsgMap_Some)

lemma set_joinHits:
  "set (joinHits P m rs) = {t. \<exists>r\<in>set rs. findMatch P m r = Some t}"
proof (induction rs)
  case Nil
  show ?case by simp
next
  case (Cons r rs)
  then show ?case
    by (cases "findMatch P m r") auto
qed

lemma joinHits_subset: "set (joinHits P (buildMsgMap ts) rs) \<subseteq> set ts"
  by (auto simp: set_joinHits dest: findMatch_Some_in)

lemma authCount_mset: "mset xs = mset ys \<Longrightarrow> authCount a xs = authCount a ys"
  unfolding authCount_def
  by (metis mset_filter size_mset)

lemma authCount_unmatched:
  "authCount a (map unmatchedRow ts) = length (filter (\<lambda>t. authId t = a) ts)"
  by (induction ts) (simp_all add: authCount_def)

lemma authCount_augmented:
  "a \<noteq> [] \<Longrightarrow>
     authCount a (map (augmentedRow P m) rs) = length (filter (\<lambda>t. authId t = a) (joinHits P m rs))"
proof (induction rs)
  case Nil
  show ?case by (simp add: authCount_def)
next
  case (Cons r rs)
  then show ?case
    by (cases "findMatch P m r") (auto simp: authCount_def augmentedRow_def)
qed

lemma authCount_augmented_ge:
  "length (filter (\<lambda>t. authId t = a) (joinHits P m rs)) \<le> authCount a (map (augmentedRow P m) rs)"
proof (induction rs)
  case Nil
  show ?case by (simp add: authCount_def)
next
  case (Cons r rs)
  then show ?case
    by (cases "findMatch P m r") (auto simp: authCount_def augmentedRow_def)
qed


lemma uniqueFrom_subset: "set (uniqueFrom P seen ts) \<subseteq> set ts"
  by (induction ts arbitrary: seen) auto

lemma joinedTransactions_subset:
  "set (joinedTransactions P excelData msgTransactions) \<subseteq> set msgTransactions"
  using joinHits_subset [of P "uniqueMsgTransactions P msgTransactions" excelData]
    uniqueFrom_subset [of P "{}" msgTransactions]
  by (auto simp: joinedTransactions_def uniqueMsgTransactions_def)

lemma processFiles_take:
  "take (length excelData) (updatedData (processFiles P excelData msgTransactions))
     = sortBy (byMerchantNumber P) (augmentedRows P excelData msgTransactions)"
  by (simp add: processFiles_updatedData sortBy_length augmentedRows_def)

lemma processFiles_drop:
  "drop (length excelData + 7) (updatedData (processFiles P excelData msgTransactions))
     = sortBy (byMerchantNumber P)
         (map unmatchedRow (unmatchedTransactions P excelData msgTransactions))"
  by (simp add: processFiles_updatedData sortBy_length augmentedRows_def)

lemma processFiles_totalTrx:
  "totalTrx (summary (processFiles P excelData msgTransactions)) =
     foldl (numAdd P) (numZero P) (map tranAmount (joinedTransactions P excelData msgTransactions))"
  by (simp add: processFiles_summary joinRows_totalTrx joinedTransactions_def initialSummary_def)

lemma processFiles_matchedCount:
  "matchedCount (summary (processFiles P excelData msgTransactions)) =
     length (joinedTransactions P excelData msgTransactions)"
  by (simp add: processFiles_summary joinRows_matchedCount joinedTransactions_def initialSummary_def)

lemma length_joinHits:
  "length (joinHits P m rs) = length (filter (\<lambda>r. findMatch P m r \<noteq> None) rs)"
proof (induction rs)
  case Nil
  show ?case by simp
next
  case (Cons r rs)
  then show ?case by (cases "findMatch P m r") auto
qed

lemma nonblank_auth_count:
  "\<forall>t\<in>set (joinHits P m rs). authId t \<noteq> [] \<Longrightarrow>
     nonBlankAuthCount (map (augmentedRow P m) rs) = length (joinHits P m rs)"
proof (induction rs)
  case Nil
  show ?case by (simp add: nonBlankAuthCount_def)
next
  case (Cons r rs)
  then show ?case
    by (cases "findMatch P m r") (auto simp: augmentedRow_def nonBlankAuthCount_def)
qed

lemma filter_length_mset:
  "mset xs = mset ys \<Longrightarrow> length (filter Q xs) = length (filter Q ys)"
  by (metis mset_filter size_mset)

text \<open>
  C3, as the code has it. \<open>totalTrx\<close> is the sum, in the order of the rows, of the
  transaction amount of the hit of every spreadsheet row that had one: a transaction that
  several rows hit counts once for each of them, so the sum is over the set of matched
  transactions when no two rows hit the same one. \<open>matchedCount\<close> is the number of
  spreadsheet rows with a hit, and that is the number of rows with a non-blank AUTH
  column when no transaction has an empty authorization id.
\<close>

theorem summary_counts_every_hit:
  "(let s = summary (processFiles P excelData msgTransactions);
        hits = joinedTransactions P excelData msgTransactions;
        msgMap = buildMsgMap (uniqueMsgTransactions P msgTransactions);
        augmented = take (length excelData) (updatedData (processFiles P excelData msgTransactions))
    in totalTrx s = foldl (numAdd P) (numZero P) (map tranAmount hits)
       \<and> (distinct hits \<longrightarrow>
            totalTrx s = foldl (numAdd P) (numZero P) (map tranAmount (remdups hits)))
       \<and> matchedCount s = length (filter (\<lambda>r. findMatch P msgMap r \<noteq> None) excelData)
       \<and> ((\<forall>t\<in>set msgTransactions. authId t \<noteq> []) \<longrightarrow>
            matchedCount s = nonBlankAuthCount augmented))"
proof -
  let ?hits = "joinedTransactions P excelData msgTransactions"
  let ?m = "buildMsgMap (uniqueMsgTransactions P msgTransactions)"
  let ?aug = "take (length excelData) (updatedData (processFiles P excelData msgTransactions))"
  have count: "matchedCount (summary (processFiles P excelData msgTransactions))
      = length (filter (\<lambda>r. findMatch P ?m r \<noteq> None) excelData)"
    by (simp add: processFiles_matchedCount joinedTransactions_def length_joinHits)
  have nonblank: "matchedCount (summary (processFiles P excelData msgTransactions))
      = nonBlankAuthCount ?aug"
    if ne: "\<forall>t\<in>set msgTransactions. authId t \<noteq> []"
  proof -
    have "\<forall>t\<in>set (joinHits P ?m excelData). authId t \<noteq> []"
      using ne joinedTransactions_subset [of P excelData msgTransactions]
      by (auto simp: joinedTransactions_def)
    then have "nonBlankAuthCount (map (augmentedRow P ?m) excelData)
        = length (joinHits P ?m excelData)"
      by (rule nonblank_auth_count)
    moreover have "mset ?aug = mset (map (augmentedRow P ?m) excelData)"
      by (simp add: processFiles_take sortBy_mset augmentedRows_def)
    ultimately show ?thesis
      using filter_length_mset [of ?aug "map (augmentedRow P ?m) excelData"]
      by (simp add: processFiles_matchedCount joinedTransactions_def nonBlankAuthCount_def)
  qed
  show ?thesis
    unfolding Let_def
    using count nonblank by (simp add: processFiles_totalTrx distinct_remdups_id)
qed

theorem summary_counts_every_hit_witness:
  "list_all (\<lambda>t. authId t \<noteq> []) oneTransaction
   \<and> totalTrx (summary (processFiles decimalPrims twoVoucherRows oneTransaction)) = Fin 200
   \<and> matchedCount (summary (processFiles decimalPrims twoVoucherRows oneTransaction)) = 2
   \<and> nonBlankAuthCount
        (take (length twoVoucherRows)
           (updatedData (processFiles decimalPrims twoVoucherRows oneTransaction))) = 2"
proof -
  have ne: "\<forall>t\<in>set oneTransaction. authId t \<noteq> []"
    by (simp add: sample_eval)
  have hits: "joinedTransactions decimalPrims twoVoucherRows oneTransaction
      = [sampleTx ''74680'' ''3010147'' 100 2, sampleTx ''74680'' ''3010147'' 100 2]"
    by (simp add: engine_eval prims_eval sample_eval notion_eval)
  have found: "filter (\<lambda>r. findMatch decimalPrims
        (buildMsgMap (uniqueMsgTransactions decimalPrims oneTransaction)) r \<noteq> None) twoVoucherRows
      = twoVoucherRows"
    by (simp add: engine_eval prims_eval sample_eval)
  have len: "length twoVoucherRows = 2"
    by (simp add: twoVoucherRows_def)
  note T = summary_counts_every_hit [of decimalPrims twoVoucherRows oneTransaction, unfolded Let_def]
  have "totalTrx (summary (processFiles decimalPrims twoVoucherRows oneTransaction))
      = foldl (numAdd decimalPrims) (numZero decimalPrims)
          (map tranAmount (joinedTransactions decimalPrims twoVoucherRows oneTransaction))"
    using T by blast
  then have sum: "totalTrx (summary (processFiles decimalPrims twoVoucherRows oneTransaction)) = Fin 200"
    by (simp add: hits sampleTx_def addNumber_def)
  have "matchedCount (summary (processFiles decimalPrims twoVoucherRows oneTransaction))
      = length (filter (\<lambda>r. findMatch decimalPrims
          (buildMsgMap (uniqueMsgTransactions decimalPrims oneTransaction)) r \<noteq> None) twoVoucherRows)"
    using T by blast
  then have count: "matchedCount (summary (processFiles decimalPrims twoVoucherRows oneTransaction)) = 2"
    by (simp only: found len)
  have blank: "matchedCount (summary (processFiles decimalPrims twoVoucherRows oneTransaction))
      = nonBlankAuthCount (take (length twoVoucherRows)
          (updatedData (processFiles decimalPrims twoVoucherRows oneTransaction)))"
    using T ne by blast
  from ne sum count blank show ?thesis
    by (simp add: list_all_iff)
qed

text \<open>
  The claim as the specification states it fails: with three rows for the vouchers 0,
  74680 and 074680 and two transactions with the ids "" and 74680, all three rows hit,
  the second transaction twice. \<open>totalTrx\<close> is 205 and the sum over the two matched
  transactions is 105; \<open>matchedCount\<close> is 3 and two rows have a non-blank AUTH column.
\<close>

theorem totalTrx_once_per_transaction_counterexample:
  "totalTrx (summary (processFiles decimalPrims threeVoucherRows twoTransactions)) = Fin 205
   \<and> foldl addNumber (Fin 0)
        (map tranAmount (remdups (joinedTransactions decimalPrims threeVoucherRows twoTransactions)))
      = Fin 105
   \<and> matchedCount (summary (processFiles decimalPrims threeVoucherRows twoTransactions)) = 3
   \<and> nonBlankAuthCount
        (take 3 (updatedData (processFiles decimalPrims threeVoucherRows twoTransactions))) = 2"
  by (simp add: engine_eval prims_eval sample_eval notion_eval)

lemma filter_key_count_pos:
  "a \<in> f ` set xs \<Longrightarrow> 0 < length (filter (\<lambda>x. f x = a) xs)"
  by (induction xs) auto

lemma filter_key_count_distinct:
  "distinct (map f xs) \<Longrightarrow>
     length (filter (\<lambda>x. f x = a) xs) = (if a \<in> f ` set xs then 1 else 0)"
  by (induction xs) auto

lemma filter_key_count_zero:
  "a \<notin> f ` set xs \<Longrightarrow> length (filter (\<lambda>x. f x = a) xs) = 0"
  by (induction xs) auto

lemma unmatched_key_count:
  "length (filter (\<lambda>t. authId t = a) (filter (\<lambda>t. authId t \<notin> H) ts))
     = (if a \<in> H then 0 else length (filter (\<lambda>t. authId t = a) ts))"
  by (induction ts) auto

lemma appendix_authCount:
  "authCount a (drop (length excelData + 7) (updatedData (processFiles P excelData msgTransactions)))
     = (if a \<in> authId ` set (joinedTransactions P excelData msgTransactions) then 0
        else length (filter (\<lambda>t. authId t = a) (uniqueMsgTransactions P msgTransactions)))"
proof -
  have "authCount a (drop (length excelData + 7) (updatedData (processFiles P excelData msgTransactions)))
      = authCount a (map unmatchedRow (unmatchedTransactions P excelData msgTransactions))"
    by (rule authCount_mset) (simp add: processFiles_drop sortBy_mset)
  then show ?thesis
    by (simp only: authCount_unmatched unmatchedTransactions_def unmatched_key_count)
qed

lemma augmented_authCount_ge:
  "length (filter (\<lambda>t. authId t = a) (joinedTransactions P excelData msgTransactions))
     \<le> authCount a (take (length excelData) (updatedData (processFiles P excelData msgTransactions)))"
proof -
  have "authCount a (take (length excelData) (updatedData (processFiles P excelData msgTransactions)))
      = authCount a (augmentedRows P excelData msgTransactions)"
    by (rule authCount_mset) (simp add: processFiles_take sortBy_mset)
  then show ?thesis
    by (simp add: augmentedRows_def joinedTransactions_def authCount_augmented_ge)
qed

lemma augmented_authCount:
  assumes "a \<noteq> []"
  shows "authCount a (take (length excelData) (updatedData (processFiles P excelData msgTransactions)))
     = length (filter (\<lambda>t. authId t = a) (joinedTransactions P excelData msgTransactions))"
proof -
  have "authCount a (take (length excelData) (updatedData (processFiles P excelData msgTransactions)))
      = authCount a (augmentedRows P excelData msgTransactions)"
    by (rule authCount_mset) (simp add: processFiles_take sortBy_mset)
  then show ?thesis
    using assms by (simp add: augmentedRows_def joinedTransactions_def authCount_augmented)
qed

text \<open>
  C1, as the code has it. An authorization id of the deduplicated transactions that some
  row hit stands in the AUTH column of an augmented row and in no row of the appendix;
  one that no row hit stands in the appendix, once for every deduplicated transaction
  that carries it, and (unless it is empty) in no augmented row. A non-empty id stands in
  as many augmented rows as rows hit it. So a non-empty id appears exactly once when the
  deduplicated transactions have distinct ids and no two rows hit the same id.
\<close>

theorem authId_in_augmented_or_appendix:
  assumes "a \<in> authId ` set (uniqueMsgTransactions P msgTransactions)"
  shows "(let out = updatedData (processFiles P excelData msgTransactions);
              augmented = take (length excelData) out;
              appendix = drop (length excelData + 7) out;
              hits = joinedTransactions P excelData msgTransactions;
              uniq = uniqueMsgTransactions P msgTransactions
          in (if a \<in> authId ` set hits
              then 0 < authCount a augmented \<and> authCount a appendix = 0
              else 0 < authCount a appendix
                   \<and> authCount a appendix = length (filter (\<lambda>t. authId t = a) uniq)
                   \<and> (a \<noteq> [] \<longrightarrow> authCount a augmented = 0))
             \<and> (a \<noteq> [] \<longrightarrow> authCount a augmented = length (filter (\<lambda>t. authId t = a) hits))
             \<and> (a \<noteq> [] \<and> distinct (map authId uniq) \<and> distinct (map authId hits) \<longrightarrow>
                  authCount a augmented + authCount a appendix = 1))"
proof -
  let ?out = "updatedData (processFiles P excelData msgTransactions)"
  let ?aug = "take (length excelData) ?out"
  let ?app = "drop (length excelData + 7) ?out"
  let ?hits = "joinedTransactions P excelData msgTransactions"
  let ?uniq = "uniqueMsgTransactions P msgTransactions"
  note app = appendix_authCount [of a excelData P msgTransactions]
  note ge = augmented_authCount_ge [of a P excelData msgTransactions]
  have uniq_pos: "0 < length (filter (\<lambda>t. authId t = a) ?uniq)"
    using assms by (rule filter_key_count_pos)
  have hit: "0 < authCount a ?aug \<and> authCount a ?app = 0" if "a \<in> authId ` set ?hits"
  proof -
    from that have "0 < length (filter (\<lambda>t. authId t = a) ?hits)"
      by (rule filter_key_count_pos)
    with ge have "0 < authCount a ?aug" by linarith
    with that show ?thesis by (simp add: app)
  qed
  have miss: "0 < authCount a ?app
      \<and> authCount a ?app = length (filter (\<lambda>t. authId t = a) ?uniq)
      \<and> (a \<noteq> [] \<longrightarrow> authCount a ?aug = 0)" if "a \<notin> authId ` set ?hits"
    using that uniq_pos
    by (simp add: app augmented_authCount filter_key_count_zero)
  have once: "authCount a ?aug + authCount a ?app = 1"
    if "a \<noteq> []" "distinct (map authId ?uniq)" "distinct (map authId ?hits)"
    using that assms
    by (simp add: app augmented_authCount filter_key_count_distinct)
  have eq: "a \<noteq> [] \<longrightarrow> authCount a ?aug = length (filter (\<lambda>t. authId t = a) ?hits)"
    by (simp add: augmented_authCount)
  show ?thesis
  proof (cases "a \<in> authId ` set ?hits")
    case True
    with hit once eq show ?thesis unfolding Let_def by (simp only: if_True) blast
  next
    case False
    with miss once eq show ?thesis unfolding Let_def by (simp only: if_False) blast
  qed
qed

theorem authId_in_augmented_or_appendix_witness:
  "0 < authCount ''74680''
         (take (length twoVoucherRows)
            (updatedData (processFiles decimalPrims twoVoucherRows oneTransaction)))
   \<and> authCount ''74680''
         (drop (length twoVoucherRows + 7)
            (updatedData (processFiles decimalPrims twoVoucherRows oneTransaction))) = 0"
proof -
  have h: "''74680'' \<in> authId ` set (uniqueMsgTransactions decimalPrims oneTransaction)"
    by (simp add: engine_eval prims_eval sample_eval)
  have hit: "''74680'' \<in> authId ` set (joinedTransactions decimalPrims twoVoucherRows oneTransaction)"
    by (simp add: engine_eval prims_eval sample_eval notion_eval)
  show ?thesis
    using authId_in_augmented_or_appendix [OF h, of twoVoucherRows] hit
    by (simp only: Let_def if_True)
qed

text \<open>
  The claim as the specification states it fails: two rows for the vouchers 74680 and
  074680 both hit the transaction 74680, whose id then stands in two augmented rows; and
  two transactions that share the id 74680 and differ in the amount both survive the
  deduplication and, with no row to hit them, make two rows of the appendix.
\<close>

theorem authId_exactly_once_counterexample:
  "authCount ''74680'' (updatedData (processFiles decimalPrims twoVoucherRows oneTransaction)) = 2
   \<and> authCount ''74680'' (updatedData (processFiles decimalPrims [] sameAuthTransactions)) = 2"
  by (simp add: engine_eval prims_eval sample_eval notion_eval)

section \<open>The lookup of one row and the columns of the result\<close>

lemma startsWithZero_nonempty: "startsWithZero v \<Longrightarrow> v \<noteq> []"
  by (cases v) (simp_all add: startsWithZero_def)

lemma filter_key_empty: "(filter (\<lambda>t. f t = a) ts = []) = (a \<notin> f ` set ts)"
  by (induction ts) auto

text \<open>
  C4. For a row whose voucher number is a string that starts with a zero, the join uses
  the transaction stored under the voucher string itself when the index has that key,
  and otherwise the one stored under the voucher string without its leading zeros when
  the index has that key; the exact key takes precedence. The index holds, under a key,
  the last transaction with that authorization id. In \<open>processFiles\<close> the list \<open>ts\<close> is
  the deduplicated transaction list.
\<close>

theorem exact_voucher_before_stripped_zeros:
  assumes "map_of r ''Voucher No.'' = Some (Str v)" and "startsWithZero v"
  shows "findMatch P (buildMsgMap ts) r =
           (if v \<in> authId ` set ts then Some (last (filter (\<lambda>t. authId t = v) ts))
            else if stripLeadingZeros v \<in> authId ` set ts
            then Some (last (filter (\<lambda>t. authId t = stripLeadingZeros v) ts))
            else None)"
  using assms startsWithZero_nonempty [of v]
  by (simp add: findMatch_def buildMsgMap_lookup filter_key_empty)

theorem exact_voucher_before_stripped_zeros_witness:
  "findMatch decimalPrims (buildMsgMap oneTransaction) (voucherRow (Str ''074680'') (Num (Fin 5)))
     = Some (sampleTx ''74680'' ''3010147'' 100 2)
   \<and> findMatch decimalPrims (buildMsgMap bothKeyTransactions) (voucherRow (Str ''074680'') (Num (Fin 5)))
     = Some (sampleTx ''074680'' ''3010147'' 250 5)"
proof -
  have v: "map_of (voucherRow (Str ''074680'') (Num (Fin 5))) ''Voucher No.'' = Some (Str ''074680'')"
    by (simp add: voucherRow_def)
  have z: "startsWithZero ''074680''"
    by (simp add: startsWithZero_def)
  show ?thesis
    using exact_voucher_before_stripped_zeros [OF v z, of decimalPrims oneTransaction]
      exact_voucher_before_stripped_zeros [OF v z, of decimalPrims bothKeyTransactions]
    by (simp add: oneTransaction_def bothKeyTransactions_def sampleTx_def stripLeadingZeros_def)
qed

lemma joinHits_append: "joinHits P m (xs @ ys) = joinHits P m xs @ joinHits P m ys"
proof (induction xs)
  case Nil
  show ?case by simp
next
  case (Cons x xs)
  then show ?case by (cases "findMatch P m x") simp_all
qed

lemma processFiles_totalCommission:
  "totalCommission (summary (processFiles P excelData msgTransactions)) =
     foldl (numAdd P) (numZero P) (map commission (joinedTransactions P excelData msgTransactions))"
  by (simp add: processFiles_summary joinRows_totalCommission joinedTransactions_def initialSummary_def)

lemma processFiles_totalNet:
  "totalNet (summary (processFiles P excelData msgTransactions)) =
     foldl (numAdd P) (numZero P) (map netAmount (joinedTransactions P excelData msgTransactions))"
  by (simp add: processFiles_summary joinRows_totalNet joinedTransactions_def initialSummary_def)

lemma blank_columns_lookup:
  "map (map_of (spread r blankColumns)) derivedColumnNames = replicate (length derivedColumnNames) (Some (Str []))"
  by (simp add: map_of_spread blankColumns_def derivedColumnNames_def map_add_def)

lemma matched_columns_lookup:
  "map (map_of (spread r (matchedColumns t))) derivedColumnNames
     = [Some (Str (authId t)), Some (Str (merchantNumber t)), Some (Num (tranAmount t)),
        Some (Str (cardNumber t)), Some (Num (commission t)), Some (Num (netAmount t))]"
  by (simp add: map_of_spread matchedColumns_def derivedColumnNames_def map_add_def)

text \<open>
  C10. A row whose voucher number is missing, the empty string or a falsy number (the
  number 0) is not looked up in the index, whatever the index holds: the join finds
  nothing, the six derived columns of the returned row are blank, and of the running
  state only \<open>totalExisting\<close> changes, by the row's \<open>Total\<close> when that is a number.
  Taking the row out of the spreadsheet leaves the matched count and the transaction,
  commission and net totals of the summary as they are.
\<close>

theorem falsy_voucher_is_not_looked_up:
  assumes "map_of r ''Voucher No.'' = None \<or> map_of r ''Voucher No.'' = Some (Str [])
           \<or> (\<exists>n. map_of r ''Voucher No.'' = Some (Num n) \<and> \<not> toBoolean P n)"
  shows "findMatch P msgMap r = None
         \<and> fst (joinRow P msgMap (s, A) r)
             = ((if isNaN P (existingTotal P r) then s
                 else s\<lparr>totalExisting := numAdd P (totalExisting s) (existingTotal P r)\<rparr>), A)
         \<and> map (map_of (snd (joinRow P msgMap (s, A) r))) derivedColumnNames
             = replicate (length derivedColumnNames) (Some (Str []))
         \<and> (let s1 = summary (processFiles P (before @ r # after) msgTransactions);
                 s2 = summary (processFiles P (before @ after) msgTransactions)
            in matchedCount s1 = matchedCount s2 \<and> totalTrx s1 = totalTrx s2
               \<and> totalCommission s1 = totalCommission s2 \<and> totalNet s1 = totalNet s2)"
proof -
  have none: "findMatch P m r = None" for m
    using assms by (auto simp: findMatch_def)
  have hits: "joinedTransactions P (before @ r # after) msgTransactions
      = joinedTransactions P (before @ after) msgTransactions"
    by (simp add: joinedTransactions_def joinHits_append none)
  show ?thesis
    unfolding Let_def
    by (simp add: none joinRow_None addExisting_def blank_columns_lookup processFiles_totalTrx
        processFiles_totalCommission processFiles_totalNet processFiles_matchedCount hits)
qed

theorem falsy_voucher_is_not_looked_up_witness:
  "buildMsgMap zeroIdTransactions ''0'' = Some (sampleTx ''0'' ''3010147'' 100 2)
   \<and> buildMsgMap zeroIdTransactions [] = Some (sampleTx [] ''3010147'' 250 5)
   \<and> findMatch decimalPrims (buildMsgMap zeroIdTransactions) (voucherRow (Num (Fin 0)) (Str ''1,000'')) = None
   \<and> findMatch decimalPrims (buildMsgMap zeroIdTransactions) (voucherRow (Str []) (Str ''1,000'')) = None
   \<and> findMatch decimalPrims (buildMsgMap zeroIdTransactions) [(''Total'', Str ''1,000'')] = None"
proof -
  have a: "map_of (voucherRow (Num (Fin 0)) (Str ''1,000'')) ''Voucher No.'' = Some (Num (Fin 0))
      \<and> \<not> toBoolean decimalPrims (Fin 0)"
    by (simp add: voucherRow_def)
  have b: "map_of (voucherRow (Str []) (Str ''1,000'')) ''Voucher No.'' = Some (Str [])"
    by (simp add: voucherRow_def)
  have c: "map_of [(''Total'', Str ''1,000'')] ''Voucher No.'' = (None :: number val option)"
    by simp
  have m: "buildMsgMap zeroIdTransactions ''0'' = Some (sampleTx ''0'' ''3010147'' 100 2)
      \<and> buildMsgMap zeroIdTransactions [] = Some (sampleTx [] ''3010147'' 250 5)"
    by (simp add: buildMsgMap_def zeroIdTransactions_def sampleTx_def)
  from a have a': "map_of (voucherRow (Num (Fin 0)) (Str ''1,000'')) ''Voucher No.'' = None
      \<or> map_of (voucherRow (Num (Fin 0)) (Str ''1,000'')) ''Voucher No.'' = Some (Str [])
      \<or> (\<exists>n. map_of (voucherRow (Num (Fin 0)) (Str ''1,000'')) ''Voucher No.'' = Some (Num n)
            \<and> \<not> toBoolean decimalPrims n)"
    by blast
  show ?thesis
    using m falsy_voucher_is_not_looked_up [OF a', of "buildMsgMap zeroIdTransactions"]
      falsy_voucher_is_not_looked_up [of "voucherRow (Str []) (Str ''1,000'')" decimalPrims
        "buildMsgMap zeroIdTransactions"] b
      falsy_voucher_is_not_looked_up [of "[(''Total'', Str ''1,000'')]" decimalPrims
        "buildMsgMap zeroIdTransactions"] c
    by blast
qed

text \<open>
  C8, as the code has it. The augmented rows of the table are, up to the order, one new
  row for every input row. The new row has the keys of the input row and the six derived
  column names; every column of the input row other than those six names has its value
  unchanged; the six derived columns hold the fields of the matched transaction, or are
  all blank when the row had no match. An input column that bears one of the six names
  is overwritten. The model is a function of its two arguments, so it has no effect on
  them and none beyond its result.
\<close>

theorem augmented_row_keeps_other_columns:
  "(let msgMap = buildMsgMap (uniqueMsgTransactions P msgTransactions);
        out = updatedData (processFiles P excelData msgTransactions)
    in mset (take (length excelData) out) = mset (map (augmentedRow P msgMap) excelData)
       \<and> (\<forall>r k. k \<notin> set derivedColumnNames \<longrightarrow> map_of (augmentedRow P msgMap r) k = map_of r k)
       \<and> (\<forall>r. fst ` set (augmentedRow P msgMap r) = fst ` set r \<union> set derivedColumnNames)
       \<and> (\<forall>r. map (map_of (augmentedRow P msgMap r)) derivedColumnNames
              = (case findMatch P msgMap r of
                   Some t \<Rightarrow>
                     [Some (Str (authId t)), Some (Str (merchantNumber t)),
                      Some (Num (tranAmount t)), Some (Str (cardNumber t)),
                      Some (Num (commission t)), Some (Num (netAmount t))]
                 | None \<Rightarrow> replicate (length derivedColumnNames) (Some (Str [])))))"
proof -
  let ?m = "buildMsgMap (uniqueMsgTransactions P msgTransactions)"
  have names: "fst ` set (matchedColumns t) = set derivedColumnNames"
      "fst ` set (blankColumns :: (string \<times> 'a val) list) = set derivedColumnNames" for t :: "'a MsgTransaction"
    by (simp_all add: matchedColumns_def blankColumns_def derivedColumnNames_def)
  have other: "map_of (augmentedRow P ?m r) k = map_of r k" if "k \<notin> set derivedColumnNames" for r k
    using that by (cases "findMatch P ?m r") (simp_all add: augmentedRow_def map_of_spread_other names)
  have keys: "fst ` set (augmentedRow P ?m r) = fst ` set r \<union> set derivedColumnNames" for r
    by (cases "findMatch P ?m r") (simp_all add: augmentedRow_def keys_spread names)
  have derived: "map (map_of (augmentedRow P ?m r)) derivedColumnNames
      = (case findMatch P ?m r of
           Some t \<Rightarrow>
             [Some (Str (authId t)), Some (Str (merchantNumber t)),
              Some (Num (tranAmount t)), Some (Str (cardNumber t)),
              Some (Num (commission t)), Some (Num (netAmount t))]
         | None \<Rightarrow> replicate (length derivedColumnNames) (Some (Str [])))" for r
    by (cases "findMatch P ?m r")
       (simp_all only: augmentedRow_def option.case blank_columns_lookup matched_columns_lookup)
  have seg: "mset (take (length excelData) (updatedData (processFiles P excelData msgTransactions)))
      = mset (map (augmentedRow P ?m) excelData)"
    by (simp add: processFiles_take sortBy_mset augmentedRows_def)
  show ?thesis
    unfolding Let_def using other keys derived seg by blast
qed

theorem augmented_row_keeps_other_columns_witness:
  "map_of (augmentedRow decimalPrims (buildMsgMap (uniqueMsgTransactions decimalPrims oneTransaction))
      reconciledRow) ''Remarks'' = Some (Str ''paid'')"
proof -
  have k: "''Remarks'' \<notin> set derivedColumnNames"
    by (simp add: derivedColumnNames_def)
  have v: "map_of reconciledRow ''Remarks'' = Some (Str ''paid'')"
    by (simp add: reconciledRow_def)
  from augmented_row_keeps_other_columns [of decimalPrims oneTransaction "[]", unfolded Let_def] k
  have "map_of (augmentedRow decimalPrims (buildMsgMap (uniqueMsgTransactions decimalPrims oneTransaction))
      reconciledRow) ''Remarks'' = map_of reconciledRow ''Remarks''"
    by blast
  with v show ?thesis by simp
qed

text \<open>
  The claim as the specification states it fails on a row that has a column named
  AUTH, such as a row of a spreadsheet that this program wrote: the value 74680 of that
  column is replaced by the blank of an unmatched row.
\<close>

theorem original_column_unchanged_counterexample:
  "map_of reconciledRow ''AUTH'' = Some (Str ''74680'')
   \<and> map_of (hd (updatedData (processFiles decimalPrims [reconciledRow] [sampleTx ''99999'' ''3010147'' 100 2])))
        ''AUTH'' = Some (Str [])"
  by (simp add: engine_eval prims_eval sample_eval reconciledRow_def)

section \<open>The layout of the table\<close>

lemma addExisting_totalExisting:
  "totalExisting (addExisting P s r) =
     (if isNaN P (existingTotal P r) then totalExisting s
      else numAdd P (totalExisting s) (existingTotal P r))"
  by (simp add: addExisting_def)

lemma joinRows_totalExisting:
  "totalExisting (fst (fst (joinRows P m (s, A) rs))) =
     foldl (\<lambda>acc r. if isNaN P (existingTotal P r) then acc else numAdd P acc (existingTotal P r))
       (totalExisting s) rs"
proof (induction rs arbitrary: s A)
  case Nil
  show ?case by simp
next
  case (Cons r rs)
  show ?case
    by (cases "findMatch P m r")
       (simp_all only: joinRows_Cons joinRow_None joinRow_Some fst_conv Cons.IH, 
        simp_all add: addExisting_totalExisting)
qed

lemma processFiles_totalExisting:
  "totalExisting (summary (processFiles P excelData msgTransactions)) =
     foldl (\<lambda>acc r. if isNaN P (existingTotal P r) then acc else numAdd P acc (existingTotal P r))
       (numZero P) excelData"
  by (simp add: processFiles_summary joinRows_totalExisting initialSummary_def)

lemma uniqueFrom_first_occurrences:
  "uniqueFrom P seen ts =
     map ((!) ts)
       (filter (\<lambda>i. dedupKey P (ts ! i) \<notin> seen \<union> dedupKey P ` set (take i ts)) [0..<length ts])"
proof (induction ts arbitrary: seen)
  case Nil
  show ?case by simp
next
  case (Cons t ts)
  have upt: "[0..<length (t # ts)] = 0 # map Suc [0..<length ts]"
    by (simp add: upt_conv_Cons map_Suc_upt del: upt_Suc)
  have shift: "map ((!) (t # ts))
        (filter (\<lambda>i. dedupKey P ((t # ts) ! i) \<notin> seen \<union> dedupKey P ` set (take i (t # ts)))
           (map Suc [0..<length ts]))
      = map ((!) ts)
          (filter (\<lambda>i. dedupKey P (ts ! i) \<notin> insert (dedupKey P t) seen \<union> dedupKey P ` set (take i ts))
             [0..<length ts])"
    by (simp add: filter_map comp_def,
        intro arg_cong [where f = "map ((!) ts)"] filter_cong, auto)
  let ?Q = "\<lambda>i. dedupKey P ((t # ts) ! i) \<notin> seen \<union> dedupKey P ` set (take i (t # ts))"
  have rhs: "map ((!) (t # ts)) (filter ?Q [0..<length (t # ts)])
      = (if dedupKey P t \<in> seen then [] else [t])
        @ map ((!) (t # ts)) (filter ?Q (map Suc [0..<length ts]))"
    unfolding upt by simp
  show ?case
  proof (cases "dedupKey P t \<in> seen")
    case True
    then have absorb: "insert (dedupKey P t) seen = seen" by auto
    have "uniqueFrom P seen (t # ts) = uniqueFrom P seen ts"
      using True by simp
    also have "\<dots> = map ((!) (t # ts)) (filter ?Q (map Suc [0..<length ts]))"
      unfolding shift absorb by (rule Cons.IH)
    finally show ?thesis
      unfolding rhs using True by simp
  next
    case False
    have "uniqueFrom P seen (t # ts) = t # uniqueFrom P (insert (dedupKey P t) seen) ts"
      using False by simp
    also have "uniqueFrom P (insert (dedupKey P t) seen) ts
        = map ((!) (t # ts)) (filter ?Q (map Suc [0..<length ts]))"
      unfolding shift by (rule Cons.IH)
    finally show ?thesis
      unfolding rhs using False by simp
  qed
qed

lemma example_layout:
  "length (updatedData (processFiles decimalPrims mixedRows repeatedTransactions)) = 13
   \<and> map (\<lambda>r. (map_of r ''Voucher No.'', map_of r ''AUTH''))
        (take 5 (updatedData (processFiles decimalPrims mixedRows repeatedTransactions)))
       = [(Some (Str ''0''), Some (Str [])), (Some (Str ''74680''), Some (Str ''74680'')),
          (Some (Str ''074680''), Some (Str ''74680'')), (Some (Str ''11111''), Some (Str [])),
          (Some (Str ''22222''), Some (Str []))]
   \<and> drop 5 (updatedData (processFiles decimalPrims mixedRows repeatedTransactions))
       = [[(''#'', Str []), (''Voucher No.'', Str ''TOTAL''), (''Total'', Num (Fin 1015)),
           (''AUTH'', Str []), (''MERCHANT NUMBER'', Str []), (''TRX.AMT'', Num (Fin 205)),
           (''CARD NUMBER'', Str []), (''COM. AMOUNT'', Num (Fin 5)), (''NET. AMT'', Num (Fin 200))]]
         @ replicate 5
             [(''#'', Str []), (''Voucher No.'', Str []), (''Total'', Str []), (''AUTH'', Str []),
              (''MERCHANT NUMBER'', Str []), (''TRX.AMT'', Str []), (''CARD NUMBER'', Str []),
              (''COM. AMOUNT'', Str []), (''NET. AMT'', Str [])]
         @ [[(''#'', Str []), (''Voucher No.'', Str []), (''Total'', Str []),
             (''AUTH'', Str ''AUTH''), (''MERCHANT NUMBER'', Str ''MERCHANT NUMBER''),
             (''TRX.AMT'', Str ''TRX.AMT''), (''CARD NUMBER'', Str ''CARD NUMBER''),
             (''COM. AMOUNT'', Str ''COM. AMOUNT''), (''NET. AMT'', Str ''NET. AMT'')],
            [(''#'', Str []), (''Voucher No.'', Str []), (''Total'', Str []),
             (''AUTH'', Str ''55555''), (''MERCHANT NUMBER'', Str ''3010147''),
             (''TRX.AMT'', Num (Fin 40)), (''CARD NUMBER'', Str ''532016XXXXXX3032''),
             (''COM. AMOUNT'', Num (Fin 1)), (''NET. AMT'', Num (Fin 39))]]"
  by (simp add: engine_eval prims_eval sample_eval mixedRows_def repeatedTransactions_def)

text \<open>
  C2. The table has one row per spreadsheet row, then the totals row, five spacer rows,
  the header of the appendix and one row per deduplicated transaction whose
  authorization id no row hit, in this order. The deduplicated transactions are the
  first occurrences of their six-field keys in the transaction list. The totals row has
  the label TOTAL in the voucher-number column and carries the four sums: of the \<open>Total\<close>
  column over the rows where it is a number, and of the transaction amount, the
  commission and the net amount over the hits of the rows, in row order. On five rows
  with the totals 10, 1,000, 5, a text and none, and six transactions that are three
  transactions twice, the table has 13 rows, the totals row carries 1015, 205, 5 and
  200, and the appendix is the one transaction that no row hit.
\<close>

theorem processFiles_table_layout:
  "(let out = updatedData (processFiles P excelData msgTransactions);
        s = summary (processFiles P excelData msgTransactions);
        n = length excelData;
        uniq = uniqueMsgTransactions P msgTransactions;
        hits = joinedTransactions P excelData msgTransactions
    in length out = n + 1 + 5 + 1 + length (unmatchedTransactions P excelData msgTransactions)
       \<and> mset (take n out) = mset (augmentedRows P excelData msgTransactions)
       \<and> out ! n = totalsRow s
       \<and> map_of (out ! n) ''Voucher No.'' = Some (Str ''TOTAL'')
       \<and> map_of (out ! n) ''Total'' = Some (Num (totalExisting s))
       \<and> map_of (out ! n) ''TRX.AMT'' = Some (Num (totalTrx s))
       \<and> map_of (out ! n) ''COM. AMOUNT'' = Some (Num (totalCommission s))
       \<and> map_of (out ! n) ''NET. AMT'' = Some (Num (totalNet s))
       \<and> take 5 (drop (n + 1) out) = replicate 5 spacerRow
       \<and> out ! (n + 6) = unmatchedHeaderRow
       \<and> mset (drop (n + 7) out)
           = mset (map unmatchedRow (unmatchedTransactions P excelData msgTransactions))
       \<and> uniq = map ((!) msgTransactions)
                  (filter (\<lambda>i. dedupKey P (msgTransactions ! i)
                                \<notin> dedupKey P ` set (take i msgTransactions))
                     [0..<length msgTransactions])
       \<and> hits = List.map_filter (findMatch P (buildMsgMap uniq)) excelData
       \<and> unmatchedTransactions P excelData msgTransactions
           = filter (\<lambda>t. authId t \<notin> authId ` set hits) uniq
       \<and> totalExisting s
           = foldl (\<lambda>acc r. if isNaN P (existingTotal P r) then acc
                             else numAdd P acc (existingTotal P r)) (numZero P) excelData
       \<and> totalTrx s = foldl (numAdd P) (numZero P) (map tranAmount hits)
       \<and> totalCommission s = foldl (numAdd P) (numZero P) (map commission hits)
       \<and> totalNet s = foldl (numAdd P) (numZero P) (map netAmount hits))
   \<and> length (updatedData (processFiles decimalPrims mixedRows repeatedTransactions)) = 13
   \<and> map (\<lambda>r. (map_of r ''Voucher No.'', map_of r ''AUTH''))
        (take 5 (updatedData (processFiles decimalPrims mixedRows repeatedTransactions)))
       = [(Some (Str ''0''), Some (Str [])), (Some (Str ''74680''), Some (Str ''74680'')),
          (Some (Str ''074680''), Some (Str ''74680'')), (Some (Str ''11111''), Some (Str [])),
          (Some (Str ''22222''), Some (Str []))]
   \<and> drop 5 (updatedData (processFiles decimalPrims mixedRows repeatedTransactions))
       = [[(''#'', Str []), (''Voucher No.'', Str ''TOTAL''), (''Total'', Num (Fin 1015)),
           (''AUTH'', Str []), (''MERCHANT NUMBER'', Str []), (''TRX.AMT'', Num (Fin 205)),
           (''CARD NUMBER'', Str []), (''COM. AMOUNT'', Num (Fin 5)), (''NET. AMT'', Num (Fin 200))]]
         @ replicate 5
             [(''#'', Str []), (''Voucher No.'', Str []), (''Total'', Str []), (''AUTH'', Str []),
              (''MERCHANT NUMBER'', Str []), (''TRX.AMT'', Str []), (''CARD NUMBER'', Str []),
              (''COM. AMOUNT'', Str []), (''NET. AMT'', Str [])]
         @ [[(''#'', Str []), (''Voucher No.'', Str []), (''Total'', Str []),
             (''AUTH'', Str ''AUTH''), (''MERCHANT NUMBER'', Str ''MERCHANT NUMBER''),
             (''TRX.AMT'', Str ''TRX.AMT''), (''CARD NUMBER'', Str ''CARD NUMBER''),
             (''COM. AMOUNT'', Str ''COM. AMOUNT''), (''NET. AMT'', Str ''NET. AMT'')],
            [(''#'', Str []), (''Voucher No.'', Str []), (''Total'', Str []),
             (''AUTH'', Str ''55555''), (''MERCHANT NUMBER'', Str ''3010147''),
             (''TRX.AMT'', Num (Fin 40)), (''CARD NUMBER'', Str ''532016XXXXXX3032''),
             (''COM. AMOUNT'', Num (Fin 1)), (''NET. AMT'', Num (Fin 39))]]"
proof -
  have uniq: "uniqueMsgTransactions P msgTransactions
      = map ((!) msgTransactions)
          (filter (\<lambda>i. dedupKey P (msgTransactions ! i)
                        \<notin> dedupKey P ` set (take i msgTransactions))
             [0..<length msgTransactions])"
    using uniqueFrom_first_occurrences [of P "{}" msgTransactions]
    by (simp add: uniqueMsgTransactions_def)
  have hits: "joinedTransactions P excelData msgTransactions
      = List.map_filter (findMatch P (buildMsgMap (uniqueMsgTransactions P msgTransactions))) excelData"
    by (simp add: joinedTransactions_def joinHits_def)
  have unm: "unmatchedTransactions P excelData msgTransactions
      = filter (\<lambda>t. authId t \<notin> authId ` set (joinedTransactions P excelData msgTransactions))
          (uniqueMsgTransactions P msgTransactions)"
    by (simp add: unmatchedTransactions_def)
  note layout = processFiles_layout [of P excelData msgTransactions, unfolded Let_def]
  note sums = processFiles_totalExisting [of P excelData msgTransactions]
    processFiles_totalTrx [of P excelData msgTransactions]
    processFiles_totalCommission [of P excelData msgTransactions]
    processFiles_totalNet [of P excelData msgTransactions]
  show ?thesis
    unfolding Let_def
    using layout uniq hits unm sums example_layout by blast
qed

section \<open>The order of the rows\<close>

lemma insertBy_set: "set (insertBy cmp x ys) = insert x (set ys)"
  by (induction ys) auto

lemma sorted_insertBy:
  assumes total: "\<And>x y. \<not> cmp x y \<le> 0 \<Longrightarrow> cmp y x \<le> 0"
    and trans: "\<And>x y z. cmp x y \<le> 0 \<Longrightarrow> cmp y z \<le> 0 \<Longrightarrow> cmp x z \<le> 0"
  shows "sorted_wrt (\<lambda>a b. cmp a b \<le> 0) ys \<Longrightarrow> sorted_wrt (\<lambda>a b. cmp a b \<le> 0) (insertBy cmp x ys)"
proof (induction ys)
  case Nil
  show ?case by simp
next
  case (Cons y ys)
  show ?case
  proof (cases "cmp x y \<le> 0")
    case True
    have "\<forall>z\<in>set ys. cmp x z \<le> 0"
      using Cons.prems True trans by auto
    with True Cons.prems show ?thesis by simp
  next
    case False
    then have "cmp y x \<le> 0" by (rule total)
    with False Cons show ?thesis by (auto simp: insertBy_set)
  qed
qed

lemma sorted_sortBy:
  assumes total: "\<And>x y. \<not> cmp x y \<le> 0 \<Longrightarrow> cmp y x \<le> 0"
    and trans: "\<And>x y z. cmp x y \<le> 0 \<Longrightarrow> cmp y z \<le> 0 \<Longrightarrow> cmp x z \<le> 0"
  shows "sorted_wrt (\<lambda>a b. cmp a b \<le> 0) (sortBy cmp xs)"
proof (induction xs)
  case Nil
  show ?case by (simp add: sortBy_def)
next
  case (Cons x xs)
  have "sortBy cmp (x # xs) = insertBy cmp x (sortBy cmp xs)"
    by (simp add: sortBy_def)
  with Cons show ?case
    using sorted_insertBy [of cmp "sortBy cmp xs" x, OF total trans] by simp
qed

lemma byMerchantNumber_alt:
  "byMerchantNumber P a b =
     (if merchantOf P a = [] \<and> merchantOf P b \<noteq> [] then 1
      else if merchantOf P a \<noteq> [] \<and> merchantOf P b = [] then - 1
      else if localeCompare P (merchantOf P a) (merchantOf P b) \<noteq> 0
      then localeCompare P (merchantOf P a) (merchantOf P b)
      else localeCompare P (authOf P a) (authOf P b))"
  by (simp add: byMerchantNumber_def merchantOf_def authOf_def Let_def)

lemma compare_refl:
  assumes anti: "\<forall>a b. (lc a b < 0) = (0 < lc b a)"
  shows "lc x x = (0::int)"
  using anti [rule_format, of x x] by linarith

lemma compare_flip:
  assumes anti: "\<forall>a b. (lc a b < 0) = (0 < lc b a)"
  shows "(lc x y \<le> (0::int)) = (0 \<le> lc y x)"
  using anti [rule_format, of x y] anti [rule_format, of y x] by linarith

lemma byMerchantNumber_le_iff:
  assumes anti: "\<forall>a b. (localeCompare P a b < 0) = (0 < localeCompare P b a)"
  shows "(byMerchantNumber P a b \<le> 0) = inMerchantOrder P a b"
  using compare_refl [OF anti, of "[]"]
  by (auto simp: byMerchantNumber_alt inMerchantOrder_def)

lemma inMerchantOrder_total:
  assumes anti: "\<forall>a b. (localeCompare P a b < 0) = (0 < localeCompare P b a)"
  shows "\<not> inMerchantOrder P a b \<Longrightarrow> inMerchantOrder P b a"
  using compare_flip [OF anti, of "merchantOf P a" "merchantOf P b"]
    compare_flip [OF anti, of "merchantOf P b" "merchantOf P a"]
    compare_flip [OF anti, of "authOf P a" "authOf P b"]
    compare_flip [OF anti, of "authOf P b" "authOf P a"]
  unfolding inMerchantOrder_def
  by (smt (verit))

lemma inMerchantOrder_trans:
  assumes anti: "\<forall>a b. (localeCompare P a b < 0) = (0 < localeCompare P b a)"
    and trans: "\<forall>a b c. localeCompare P a b \<le> 0 \<longrightarrow> localeCompare P b c \<le> 0 \<longrightarrow> localeCompare P a c \<le> 0"
  shows "inMerchantOrder P a b \<Longrightarrow> inMerchantOrder P b c \<Longrightarrow> inMerchantOrder P a c"
proof -
  assume ab: "inMerchantOrder P a b" and bc: "inMerchantOrder P b c"
  let ?lc = "localeCompare P"
  let ?x = "merchantOf P a" and ?y = "merchantOf P b" and ?z = "merchantOf P c"
  let ?u = "authOf P a" and ?v = "authOf P b" and ?w = "authOf P c"
  have blank: "?x = [] \<longrightarrow> ?z = []"
    using ab bc by (simp add: inMerchantOrder_def)
  have rest: "?lc ?x ?z \<le> 0 \<and> (?lc ?x ?z = 0 \<longrightarrow> ?lc ?u ?w \<le> 0)" if same: "(?x = []) = (?z = [])"
  proof -
    have xy: "(?x = []) = (?y = [])" and yz: "(?y = []) = (?z = [])"
      using ab bc same by (auto simp: inMerchantOrder_def)
    from ab xy have lxy: "?lc ?x ?y \<le> 0" and txy: "?lc ?x ?y = 0 \<longrightarrow> ?lc ?u ?v \<le> 0"
      by (simp_all add: inMerchantOrder_def)
    from bc yz have lyz: "?lc ?y ?z \<le> 0" and tyz: "?lc ?y ?z = 0 \<longrightarrow> ?lc ?v ?w \<le> 0"
      by (simp_all add: inMerchantOrder_def)
    from lxy lyz trans have lxz: "?lc ?x ?z \<le> 0" by blast
    have tie: "?lc ?u ?w \<le> 0" if eq: "?lc ?x ?z = 0"
    proof -
      from eq have zx: "?lc ?z ?x \<le> 0"
        using compare_flip [OF anti, of ?z ?x] by simp
      from zx lxy trans have "?lc ?z ?y \<le> 0" by blast
      with lyz have "?lc ?y ?z = 0"
        using compare_flip [OF anti, of ?z ?y] by linarith
      moreover from lyz zx trans have "?lc ?y ?x \<le> 0" by blast
      with lxy have "?lc ?x ?y = 0"
        using compare_flip [OF anti, of ?y ?x] by linarith
      ultimately have "?lc ?u ?v \<le> 0" and "?lc ?v ?w \<le> 0"
        using txy tyz by simp_all
      with trans show ?thesis by blast
    qed
    with lxz show ?thesis by simp
  qed
  from blank rest show ?thesis
    by (simp add: inMerchantOrder_def)
qed

lemma sorted_by_merchant:
  assumes anti: "\<forall>a b. (localeCompare P a b < 0) = (0 < localeCompare P b a)"
    and trans: "\<forall>a b c. localeCompare P a b \<le> 0 \<longrightarrow> localeCompare P b c \<le> 0 \<longrightarrow> localeCompare P a c \<le> 0"
  shows "sorted_wrt (\<lambda>a b. byMerchantNumber P a b \<le> 0) (sortBy (byMerchantNumber P) rs)"
proof (rule sorted_sortBy)
  fix x y :: "'a row"
  assume "\<not> byMerchantNumber P x y \<le> 0"
  then show "byMerchantNumber P y x \<le> 0"
    using inMerchantOrder_total [OF anti, of x y]
    by (simp add: byMerchantNumber_le_iff [OF anti])
next
  fix x y z :: "'a row"
  assume "byMerchantNumber P x y \<le> 0" and "byMerchantNumber P y z \<le> 0"
  then show "byMerchantNumber P x z \<le> 0"
    using inMerchantOrder_trans [OF anti trans, of x y z]
    by (simp add: byMerchantNumber_le_iff [OF anti])
qed

text \<open>
  C7. For a \<open>localeCompare\<close> that is a consistent comparison (its sign flips with its
  arguments and it is transitive), the augmented rows and the rows of the appendix are
  each sorted under \<open>byMerchantNumber\<close>, which is the order by merchant number with the
  rows of an empty merchant number last and ties broken by the authorization id under
  the same comparison. When the comparison is numeric-aware, so that 2 stands before 10
  and 100 before 200, transactions with the merchant numbers 10, 2, empty and 10 come
  out as 2, 10, 10, empty, the two rows of merchant 10 by ascending authorization id,
  in the appendix when no row hits them and among the augmented rows when rows do.
\<close>

theorem output_sorted_by_merchant_number:
  assumes anti: "\<forall>a b. (localeCompare P a b < 0) = (0 < localeCompare P b a)"
    and trans: "\<forall>a b c. localeCompare P a b \<le> 0 \<longrightarrow> localeCompare P b c \<le> 0 \<longrightarrow> localeCompare P a c \<le> 0"
    and two_ten: "localeCompare P ''2'' ''10'' < 0"
    and auth: "localeCompare P ''100'' ''200'' < 0"
  shows "(let out = updatedData (processFiles P excelData msgTransactions);
              augmented = take (length excelData) out;
              appendix = drop (length excelData + 7) out
          in sorted_wrt (\<lambda>a b. byMerchantNumber P a b \<le> 0) augmented
             \<and> sorted_wrt (\<lambda>a b. byMerchantNumber P a b \<le> 0) appendix
             \<and> sorted_wrt (inMerchantOrder P) augmented
             \<and> sorted_wrt (inMerchantOrder P) appendix)
         \<and> drop 7 (updatedData (processFiles P []
              [merchantTx x ''10'' ''200'', merchantTx x ''2'' ''300'', merchantTx x [] ''400'',
               merchantTx x ''10'' ''100'']))
            = map unmatchedRow
                [merchantTx x ''2'' ''300'', merchantTx x ''10'' ''100'', merchantTx x ''10'' ''200'',
                 merchantTx x [] ''400'']
         \<and> take 4 (updatedData (processFiles P
              [[(''Voucher No.'', Str ''200'')], [(''Voucher No.'', Str ''300'')],
               [(''Voucher No.'', Str ''400'')], [(''Voucher No.'', Str ''100'')]]
              [merchantTx x ''10'' ''200'', merchantTx x ''2'' ''300'', merchantTx x [] ''400'',
               merchantTx x ''10'' ''100'']))
            = [spread [(''Voucher No.'', Str ''300'')] (matchedColumns (merchantTx x ''2'' ''300'')),
               spread [(''Voucher No.'', Str ''100'')] (matchedColumns (merchantTx x ''10'' ''100'')),
               spread [(''Voucher No.'', Str ''200'')] (matchedColumns (merchantTx x ''10'' ''200'')),
               spread [(''Voucher No.'', Str ''400'')] (matchedColumns (merchantTx x [] ''400''))]"
proof -
  let ?out = "updatedData (processFiles P excelData msgTransactions)"
  have s1: "sorted_wrt (\<lambda>a b. byMerchantNumber P a b \<le> 0) (take (length excelData) ?out)"
    by (simp only: processFiles_take sorted_by_merchant [OF anti trans])
  have s2: "sorted_wrt (\<lambda>a b. byMerchantNumber P a b \<le> 0) (drop (length excelData + 7) ?out)"
    by (simp only: processFiles_drop sorted_by_merchant [OF anti trans])
  have eq: "(\<lambda>a b. byMerchantNumber P a b \<le> 0) = inMerchantOrder P"
    by (intro ext) (simp add: byMerchantNumber_le_iff [OF anti])
  have ten_two: "0 < localeCompare P ''10'' ''2''"
    using anti two_ten by simp
  have ten_ten: "localeCompare P ''10'' ''10'' = 0"
    by (rule compare_refl [OF anti])
  have auth': "0 < localeCompare P ''200'' ''100''"
    using anti auth by simp
  have example: "drop 7 (updatedData (processFiles P []
        [merchantTx x ''10'' ''200'', merchantTx x ''2'' ''300'', merchantTx x [] ''400'',
         merchantTx x ''10'' ''100'']))
      = map unmatchedRow
          [merchantTx x ''2'' ''300'', merchantTx x ''10'' ''100'', merchantTx x ''10'' ''200'',
           merchantTx x [] ''400'']"
    using two_ten ten_two ten_ten auth'
    by (simp add: engine_eval joinRows.simps merchantTx_def isSpace_def)
  have example2: "take 4 (updatedData (processFiles P
        [[(''Voucher No.'', Str ''200'')], [(''Voucher No.'', Str ''300'')],
         [(''Voucher No.'', Str ''400'')], [(''Voucher No.'', Str ''100'')]]
        [merchantTx x ''10'' ''200'', merchantTx x ''2'' ''300'', merchantTx x [] ''400'',
         merchantTx x ''10'' ''100'']))
      = [spread [(''Voucher No.'', Str ''300'')] (matchedColumns (merchantTx x ''2'' ''300'')),
         spread [(''Voucher No.'', Str ''100'')] (matchedColumns (merchantTx x ''10'' ''100'')),
         spread [(''Voucher No.'', Str ''200'')] (matchedColumns (merchantTx x ''10'' ''200'')),
         spread [(''Voucher No.'', Str ''400'')] (matchedColumns (merchantTx x [] ''400''))]"
    using two_ten ten_two ten_ten auth'
    by (simp add: engine_eval joinRows.simps merchantTx_def isSpace_def)
  from s1 s2 example example2 show ?thesis
    unfolding Let_def eq [symmetric] by simp
qed

lemma numericCompare_anti: "\<forall>a b. (numericCompare a b < 0) = (0 < numericCompare b a)"
  by (auto simp: numericCompare_def)

lemma numericCompare_trans:
  "\<forall>a b c. numericCompare a b \<le> 0 \<longrightarrow> numericCompare b c \<le> 0 \<longrightarrow> numericCompare a c \<le> 0"
  by (auto simp: numericCompare_def split: if_splits)

theorem output_sorted_by_merchant_number_witness:
  "numericCompare ''2'' ''10'' < 0 \<and> numericCompare ''100'' ''200'' < 0
   \<and> sorted_wrt (inMerchantOrder decimalPrims)
        (take (length twoVoucherRows)
           (updatedData (processFiles decimalPrims twoVoucherRows oneTransaction)))
   \<and> drop 7 (updatedData (processFiles decimalPrims []
        [merchantTx (Fin 100) ''10'' ''200'', merchantTx (Fin 100) ''2'' ''300'',
         merchantTx (Fin 100) [] ''400'', merchantTx (Fin 100) ''10'' ''100'']))
      = map unmatchedRow
          [merchantTx (Fin 100) ''2'' ''300'', merchantTx (Fin 100) ''10'' ''100'',
           merchantTx (Fin 100) ''10'' ''200'', merchantTx (Fin 100) [] ''400'']"
proof -
  have anti: "\<forall>a b. (localeCompare decimalPrims a b < 0) = (0 < localeCompare decimalPrims b a)"
    using numericCompare_anti by simp
  have trans: "\<forall>a b c. localeCompare decimalPrims a b \<le> 0 \<longrightarrow> localeCompare decimalPrims b c \<le> 0
      \<longrightarrow> localeCompare decimalPrims a c \<le> 0"
    using numericCompare_trans by simp
  have two_ten: "numericCompare ''2'' ''10'' < 0"
    by (simp add: numericCompare_def natOfDigits_def digitValue_def isDigit_def)
  have auth: "numericCompare ''100'' ''200'' < 0"
    by (simp add: numericCompare_def natOfDigits_def digitValue_def isDigit_def)
  have two_ten': "localeCompare decimalPrims ''2'' ''10'' < 0" and
    auth': "localeCompare decimalPrims ''100'' ''200'' < 0"
    using two_ten auth by simp_all
  note T = output_sorted_by_merchant_number [OF anti trans two_ten' auth',
      of twoVoucherRows oneTransaction "Fin 100", unfolded Let_def]
  from T two_ten auth show ?thesis by blast
qed

section \<open>The guard of the driver\<close>

text \<open>
  C9. When the files were read and no transaction was extracted from them, the driver
  sets the error message, stops processing and leaves no result: the table and the
  summary of \<open>processFiles\<close> are stored only when the transaction list is not empty.
\<close>

theorem no_transactions_no_result:
  assumes "excelFilePresent" and "0 < msgFilesLength"
  shows "handleProcess P excelFilePresent msgFilesLength (Extracted excelData [] issues) st
           = \<lparr>isProcessing = False, result = None,
              error = Some ''No valid transactions found in the uploaded text files.'',
              fileIssues = issues\<rparr>
         \<and> (msgTransactions \<noteq> [] \<longrightarrow>
              result (handleProcess P excelFilePresent msgFilesLength
                        (Extracted excelData msgTransactions issues) st)
                = Some (processFiles P excelData msgTransactions))"
  using assms by (simp add: handleProcess_def Let_def)

theorem no_transactions_no_result_witness:
  "handleProcess decimalPrims True 1 (Extracted twoVoucherRows [] [''Skipped a.msg: NTB merchant ID not found.''])
     \<lparr>isProcessing = False,
      result = Some (processFiles decimalPrims twoVoucherRows oneTransaction),
      error = None, fileIssues = []\<rparr>
   = \<lparr>isProcessing = False, result = None,
      error = Some ''No valid transactions found in the uploaded text files.'',
      fileIssues = [''Skipped a.msg: NTB merchant ID not found.'']\<rparr>"
proof -
  have a: "True" and b: "0 < (1::nat)" by simp_all
  from no_transactions_no_result [OF a b] show ?thesis by blast
qed

section \<open>The parser of the fixed-width log\<close>

lemma trim_tight: "s \<noteq> [] \<Longrightarrow> \<not> isSpace (hd s) \<Longrightarrow> \<not> isSpace (last s) \<Longrightarrow> trim s = s"
proof -
  assume ne: "s \<noteq> []" and h: "\<not> isSpace (hd s)" and l: "\<not> isSpace (last s)"
  from ne h have "dropWhile isSpace s = s"
    by (cases s) simp_all
  moreover from ne l have "dropWhile isSpace (rev s) = rev s"
    by (cases "rev s") (simp_all add: last_rev [symmetric] hd_rev)
  ultimately show ?thesis
    by (simp add: trim_def)
qed

lemma splitOn_absent: "d \<notin> set s \<Longrightarrow> splitOn d cur s = [cur @ s]"
  by (induction s arbitrary: cur) auto

lemma stringIncludes_absent: "sub \<noteq> [] \<Longrightarrow> hd sub \<notin> set s \<Longrightarrow> \<not> stringIncludes s sub"
proof (induction s)
  case Nil
  then show ?case by simp
next
  case (Cons c cs)
  have "take (length sub) (c # cs) \<noteq> sub"
  proof
    assume "take (length sub) (c # cs) = sub"
    with Cons.prems(1) have "hd sub = c"
      by (cases sub) auto
    with Cons.prems(2) show False by simp
  qed
  with Cons show ?case by simp
qed

lemma toUpper_M: "toUpper c = CHR ''M'' \<Longrightarrow> c = CHR ''M'' \<or> c = CHR ''m''"
  by (auto simp: toUpper_def split: if_splits)

lemma merchantMatchAt_head:
  "merchantMatchAt s \<noteq> None \<Longrightarrow> s \<noteq> [] \<and> (hd s = CHR ''M'' \<or> hd s = CHR ''m'')"
proof -
  assume "merchantMatchAt s \<noteq> None"
  then have eq: "map toUpper (take 15 s) = ''MERCHANT NUMBER''"
    by (auto simp: merchantMatchAt_def split: if_splits)
  then have ne: "s \<noteq> []" by auto
  with eq have "toUpper (hd s) = CHR ''M''"
    by (cases s) auto
  with ne show ?thesis
    using toUpper_M by blast
qed

lemma merchantMatch_absent:
  "CHR ''M'' \<notin> set s \<Longrightarrow> CHR ''m'' \<notin> set s \<Longrightarrow> merchantMatch s = None"
proof (induction s)
  case Nil
  show ?case by simp
next
  case (Cons c cs)
  have "merchantMatchAt (c # cs) = None"
  proof (rule ccontr)
    assume "merchantMatchAt (c # cs) \<noteq> None"
    then have "c = CHR ''M'' \<or> c = CHR ''m''"
      using merchantMatchAt_head [of "c # cs"] by simp
    with Cons.prems show False by auto
  qed
  with Cons show ?case by simp
qed

lemma trim_sample: "trim sampleLine = sampleLine"
  by (rule trim_tight) (simp_all add: sampleLine_def isSpace_def)

lemma split_sample:
  "splitFields [] sampleLine =
     [''532016XXXXXX3032'', ''EDC'', ''144'', ''49,900.00'', ''49,900.00'', ''898.20'',
      ''49,001.80'', ''02/02/2026'', ''074680'', ''37012252'']"
  by (simp add: sampleLine_def isSpace_def)

lemma data_sample: "isDataLine sampleLine"
  unfolding isDataLine_def trim_sample Let_def
  by (simp add: sampleLine_def isDigit_def)

lemma merchant_sample: "merchantMatch sampleLine = None"
  by (rule merchantMatch_absent) (simp_all add: sampleLine_def)

lemma markers_sample:
  "\<not> stringIncludes sampleLine ''Visa / Master Transactions''"
  "\<not> stringIncludes sampleLine ''=====''"
  by (rule stringIncludes_absent, simp, simp add: sampleLine_def)+

lemma lines_sample: "splitLines sampleLine = [sampleLine]"
  unfolding splitLines_def
  by (subst splitOn_absent) (simp_all add: sampleLine_def)


lemma dropWhile_gap:
  "list_all isSpace ws \<Longrightarrow> b = [] \<or> \<not> isSpace (hd b) \<Longrightarrow> dropWhile isSpace (ws @ b) = b"
proof (induction ws)
  case Nil
  then show ?case by (cases b) auto
next
  case (Cons w ws)
  then show ?case by simp
qed

lemma splitFields_gap:
  assumes "2 \<le> length ws" and "list_all isSpace ws" and "b = [] \<or> \<not> isSpace (hd b)"
  shows "splitFields cur (ws @ b) = cur # splitFields [] b"
proof -
  from assms(1) obtain w1 w2 ws' where ws: "ws = w1 # w2 # ws'"
    by (cases ws; cases "tl ws") auto
  with assms(2) have "isSpace w1" "isSpace w2" "list_all isSpace ws'"
    by simp_all
  then show ?thesis
    using assms(3) by (simp add: ws dropWhile_gap)
qed

lemma splitFields_field:
  assumes "2 \<le> length ws" and "list_all isSpace ws" and "b = [] \<or> \<not> isSpace (hd b)"
  shows "singleSpaced a \<Longrightarrow> splitFields cur (a @ ws @ b) = (cur @ a) # splitFields [] b"
proof (induction a arbitrary: cur rule: singleSpaced.induct)
  case 1
  show ?case using splitFields_gap [OF assms] by simp
next
  case (2 c)
  from assms(1) obtain w ws' where ws: "ws = w # ws'"
    by (cases ws) auto
  from 2 have "splitFields cur ([c] @ ws @ b) = splitFields (cur @ [c]) (ws @ b)"
    by (simp add: ws)
  then show ?case
    using splitFields_gap [OF assms, of "cur @ [c]"] by simp
next
  case (3 c d cs)
  then show ?case by simp
qed

lemma splitFields_last: "singleSpaced a \<Longrightarrow> splitFields cur a = [cur @ a]"
  by (induction a arbitrary: cur rule: singleSpaced.induct) simp_all

lemma parseLine_data:
  assumes "\<not> stringIncludes line ''Visa / Master Transactions''"
    and "\<not> stringIncludes line ''=====''" and "isDataLine line"
  shows "parseLine P (m, t, txs) line =
     (let parts = splitFields [] (trim line);
          merchantNo = (case merchantMatch line of Some digits \<Rightarrow> digits | None \<Rightarrow> m)
      in (merchantNo, t,
          if length parts < 9 then txs
          else txs @ [\<lparr>merchantNumber = merchantNo, cardNumber = parts ! 0,
                       tranAmount = parseFloat P (stripCommas (parts ! 3)),
                       commission = parseFloat P (stripCommas (parts ! 5)),
                       netAmount = parseFloat P (stripCommas (parts ! 6)),
                       authId = parts ! 8\<rparr>]))"
  using assms by (simp add: parseLine_def Let_def not_less)

lemma parseLine_sample:
  "parseLine P ([], False, []) sampleLine =
     ([], False,
      [\<lparr>merchantNumber = [], cardNumber = ''532016XXXXXX3032'',
        tranAmount = parseFloat P ''49900.00'', commission = parseFloat P ''898.20'',
        netAmount = parseFloat P ''49001.80'', authId = ''074680''\<rparr>])"
  unfolding parseLine_data [OF markers_sample data_sample] trim_sample split_sample merchant_sample
  by (simp add: stripCommas_def)

lemma parse_sample:
  "parseMsgContent P sampleLine =
     [\<lparr>merchantNumber = [], cardNumber = ''532016XXXXXX3032'',
       tranAmount = parseFloat P ''49900.00'', commission = parseFloat P ''898.20'',
       netAmount = parseFloat P ''49001.80'', authId = ''074680''\<rparr>]"
  by (simp add: parseMsgContent_def lines_sample parseLine_sample)

lemma read_sample:
  "readNumber ''49900.00'' = Fin 49900"
  "readNumber ''898.20'' = Fin (8982 / 10)"
  "readNumber ''49001.80'' = Fin (490018 / 10)"
  by (simp_all add: readNumber_def readExponent_def natOfDigits_def digitValue_def isDigit_def
      isSpace_def Let_def)

lemma parseLine_step:
  "parseLine P (m, t, txs) line =
     (let merchantNo = (case merchantMatch line of Some digits \<Rightarrow> digits | None \<Rightarrow> m)
      in (merchantNo,
          (if \<not> stringIncludes line ''Visa / Master Transactions'' \<and> stringIncludes line ''====='' 
           then \<not> t else t),
          txs @ lineTransactions P merchantNo line))"
  by (simp add: parseLine_def lineTransactions_def Let_def)

lemma merchantInEffect_snoc:
  "merchantInEffect (ls @ [l]) =
     (case merchantMatch l of Some digits \<Rightarrow> digits | None \<Rightarrow> merchantInEffect ls)"
proof -
  have "List.map_filter merchantMatch (ls @ [l])
      = List.map_filter merchantMatch ls @ (case merchantMatch l of None \<Rightarrow> [] | Some digits \<Rightarrow> [digits])"
    by (cases "merchantMatch l") (simp_all add: List.map_filter_def)
  then show ?thesis
    by (cases "merchantMatch l") (simp_all add: merchantInEffect_def)
qed

lemma concat_upt_snoc:
  "concat (map (\<lambda>i. f (take (Suc i) (ls @ [l])) ((ls @ [l]) ! i)) [0..<length (ls @ [l])])
     = concat (map (\<lambda>i. f (take (Suc i) ls) (ls ! i)) [0..<length ls]) @ f (ls @ [l]) l"
proof -
  have "map (\<lambda>i. f (take (Suc i) (ls @ [l])) ((ls @ [l]) ! i)) [0..<length ls]
      = map (\<lambda>i. f (take (Suc i) ls) (ls ! i)) [0..<length ls]"
    by (rule map_cong) (auto simp: nth_append)
  moreover have "[0..<length (ls @ [l])] = [0..<length ls] @ [length ls]"
    by simp
  ultimately show ?thesis
    by (simp only: map_append concat_append) simp
qed

lemma foldl_parseLine:
  "fst (foldl (parseLine P) ([], False, []) ls) = merchantInEffect ls
   \<and> snd (snd (foldl (parseLine P) ([], False, []) ls))
       = concat (map (\<lambda>i. lineTransactions P (merchantInEffect (take (Suc i) ls)) (ls ! i))
           [0..<length ls])"
proof (induction ls rule: rev_induct)
  case Nil
  show ?case by (simp add: merchantInEffect_def)
next
  case (snoc l ls)
  let ?txs = "concat (map (\<lambda>i. lineTransactions P (merchantInEffect (take (Suc i) ls)) (ls ! i))
           [0..<length ls])"
  obtain m t txs where st0: "foldl (parseLine P) ([], False, []) ls = (m, t, txs)"
    by (metis prod_cases3)
  with snoc have "m = merchantInEffect ls" and "txs = ?txs"
    by simp_all
  with st0 have st: "foldl (parseLine P) ([], False, []) ls = (merchantInEffect ls, t, ?txs)"
    by simp
  have step: "foldl (parseLine P) ([], False, []) (ls @ [l])
      = parseLine P (merchantInEffect ls, t, ?txs) l"
    by (simp add: st)
  show ?case
    unfolding step parseLine_step Let_def
      concat_upt_snoc [of "\<lambda>pre line. lineTransactions P (merchantInEffect pre) line" ls l]
    by (simp add: merchantInEffect_snoc)
qed

lemma joinWith_splitOn: "joinWith [d] (splitOn d cur s) = cur @ s"
proof (induction s arbitrary: cur)
  case Nil
  show ?case by simp
next
  case (Cons c s)
  have split_ne: "splitOn d x s \<noteq> []" for x
    by (induction s arbitrary: x) auto
  show ?case
  proof (cases "c = d")
    case True
    obtain y ys where "splitOn d [] s = y # ys"
      using split_ne [of "[]"] by (cases "splitOn d [] s") auto
    with True Cons.IH [of "[]"] show ?thesis by simp
  next
    case False
    with Cons.IH [of "cur @ [c]"] show ?thesis by simp
  qed
qed

lemma splitOn_lines_free:
  "d \<notin> set cur \<Longrightarrow> list_all (\<lambda>l. d \<notin> set l) (splitOn d cur s)"
  by (induction s arbitrary: cur) auto

lemma splitOn_joinWith:
  "ls \<noteq> [] \<Longrightarrow> list_all (\<lambda>l. d \<notin> set l) ls \<Longrightarrow> splitOn d cur (joinWith [d] ls) = (cur @ hd ls) # tl ls"
proof (induction "[d]" ls arbitrary: cur rule: joinWith.induct)
  case 1
  then show ?case by simp
next
  case (2 x)
  then show ?case by (simp add: splitOn_absent)
next
  case (3 x y ys)
  have pre: "splitOn d cur (x @ d # rest) = (cur @ x) # splitOn d [] rest" if "d \<notin> set x" for x rest cur
    using that by (induction x arbitrary: cur) auto
  from 3 show ?case by (simp add: pre)
qed

lemma trim_all_space: "list_all isSpace a \<Longrightarrow> trim a = []"
proof -
  assume "list_all isSpace a"
  then have d: "dropWhile isSpace a = []"
    by (induction a) auto
  show ?thesis by (simp only: trim_def d rev.simps dropWhile.simps)
qed

lemma trim_padded:
  assumes "list_all isSpace a" and "list_all isSpace b"
    and "s \<noteq> []" and "\<not> isSpace (hd s)" and "\<not> isSpace (last s)"
  shows "trim (a @ s @ b) = s"
proof -
  have front: "dropWhile isSpace (a @ s @ b) = s @ b"
    using assms(1,3,4) by (induction a) (auto simp: neq_Nil_conv)
  have rear: "dropWhile isSpace (rev s) = rev s"
    using assms(3,5) by (cases "rev s") (simp_all add: last_rev [symmetric] hd_rev)
  have "dropWhile isSpace (rev b @ rev s) = dropWhile isSpace (rev s)"
    using assms(2) by (intro dropWhile_append2) (simp add: list_all_iff)
  with rear have "dropWhile isSpace (rev b @ rev s) = rev s"
    by simp
  then show ?thesis
    by (simp add: trim_def front)
qed


lemma stringIncludes_suffix: "stringIncludes (a @ sub) sub"
proof (induction a)
  case Nil
  show ?case by (cases sub) simp_all
next
  case (Cons x a)
  then show ?case by simp
qed

lemma isDataLine_head: "isDataLine l \<Longrightarrow> trim l \<noteq> [] \<and> isDigit (hd (trim l))"
  by (cases "trim l") (auto simp: isDataLine_def Let_def)

lemma lineTransactions_marker:
  "stringIncludes line ''Visa / Master Transactions'' \<or> stringIncludes line ''=====''
     \<Longrightarrow> lineTransactions P m line = []"
  by (simp add: lineTransactions_def Let_def)

lemma lineTransactions_other: "\<not> isDataLine line \<Longrightarrow> lineTransactions P m line = []"
  by (simp add: lineTransactions_def Let_def)

lemma lineTransactions_short:
  "length (splitFields [] (trim line)) < 9 \<Longrightarrow> lineTransactions P m line = []"
  by (simp add: lineTransactions_def Let_def)

lemma lineTransactions_like_sample:
  assumes "trim line = sampleLine"
    and "\<not> stringIncludes line ''Visa / Master Transactions''" and "\<not> stringIncludes line ''=====''"
  shows "lineTransactions P m line =
     [\<lparr>merchantNumber = m, cardNumber = ''532016XXXXXX3032'',
       tranAmount = parseFloat P ''49900.00'', commission = parseFloat P ''898.20'',
       netAmount = parseFloat P ''49001.80'', authId = ''074680''\<rparr>]"
proof -
  have "isDataLine line"
    using data_sample by (simp add: isDataLine_def assms(1) trim_sample)
  then show ?thesis
    using assms(2,3)
    by (simp add: lineTransactions_def assms(1) split_sample stripCommas_def Let_def)
qed

lemma sample_ends: "sampleLine \<noteq> []" "\<not> isSpace (hd sampleLine)" "\<not> isSpace (last sampleLine)"
  by (simp_all add: sampleLine_def isSpace_def)

lemma trim_indented: "trim indentedLine = sampleLine"
  unfolding indentedLine_def
  by (rule trim_padded) (simp_all add: sample_ends, simp_all add: isSpace_def)

lemma no_capital_V:
  "CHR ''V'' \<notin> set merchantLine" "CHR ''V'' \<notin> set indentedLine" "CHR ''V'' \<notin> set markedLine"
  "CHR ''V'' \<notin> set lowerMerchantLine" "CHR ''V'' \<notin> set shortLine" "CHR ''V'' \<notin> set sampleLine"
  by (simp_all add: merchantLine_def indentedLine_def markedLine_def lowerMerchantLine_def
      shortLine_def sampleLine_def)

lemma no_equals_sign:
  "CHR ''='' \<notin> set merchantLine" "CHR ''='' \<notin> set indentedLine"
  "CHR ''='' \<notin> set lowerMerchantLine" "CHR ''='' \<notin> set shortLine"
  by (simp_all add: merchantLine_def indentedLine_def lowerMerchantLine_def
      shortLine_def sampleLine_def)

lemma no_letter_m:
  "CHR ''M'' \<notin> set indentedLine \<and> CHR ''m'' \<notin> set indentedLine"
  "CHR ''M'' \<notin> set markedLine \<and> CHR ''m'' \<notin> set markedLine"
  "CHR ''M'' \<notin> set shortLine \<and> CHR ''m'' \<notin> set shortLine"
  by (simp_all add: indentedLine_def markedLine_def shortLine_def sampleLine_def)

lemma no_newline:
  "list_all (\<lambda>l. CHR 0x0A \<notin> set l)
     [merchantLine, indentedLine, ''====='', markedLine, lowerMerchantLine, shortLine, sampleLine]"
  by (simp add: merchantLine_def indentedLine_def markedLine_def lowerMerchantLine_def
      shortLine_def sampleLine_def)

lemma visa_lines [simp]:
  "\<not> stringIncludes merchantLine ''Visa / Master Transactions''"
  "\<not> stringIncludes indentedLine ''Visa / Master Transactions''"
  "\<not> stringIncludes ''====='' ''Visa / Master Transactions''"
  "\<not> stringIncludes markedLine ''Visa / Master Transactions''"
  "\<not> stringIncludes lowerMerchantLine ''Visa / Master Transactions''"
  "\<not> stringIncludes shortLine ''Visa / Master Transactions''"
  "\<not> stringIncludes sampleLine ''Visa / Master Transactions''"
  by (rule stringIncludes_absent, simp, simp add: no_capital_V)+

lemma separator_lines [simp]:
  "\<not> stringIncludes merchantLine ''=====''"
  "\<not> stringIncludes indentedLine ''=====''"
  "stringIncludes ''====='' ''=====''"
  "stringIncludes markedLine ''=====''"
  "\<not> stringIncludes lowerMerchantLine ''=====''"
  "\<not> stringIncludes shortLine ''=====''"
  "\<not> stringIncludes sampleLine ''=====''"
proof -
  show "\<not> stringIncludes merchantLine ''=====''" "\<not> stringIncludes indentedLine ''=====''"
    "\<not> stringIncludes lowerMerchantLine ''=====''" "\<not> stringIncludes shortLine ''=====''"
    by (rule stringIncludes_absent, simp, simp add: no_equals_sign)+
  show "stringIncludes ''====='' ''=====''" by simp
  have marked: "markedLine = (sampleLine @ ''  '') @ ''=====''"
    by (simp add: markedLine_def)
  show "stringIncludes markedLine ''=====''"
    unfolding marked by (rule stringIncludes_suffix)
  show "\<not> stringIncludes sampleLine ''=====''"
    by (rule markers_sample)
qed

lemma merchant_lines [simp]:
  "merchantMatch merchantLine = Some ''3010147''"
  "merchantMatch indentedLine = None"
  "merchantMatch ''====='' = None"
  "merchantMatch markedLine = None"
  "merchantMatch lowerMerchantLine = Some ''42''"
  "merchantMatch shortLine = None"
  "merchantMatch sampleLine = None"
proof -
  show "merchantMatch merchantLine = Some ''3010147''"
    by (simp add: merchantLine_def merchantMatchAt_def toUpper_def isSpace_def isDigit_def)
  show "merchantMatch lowerMerchantLine = Some ''42''"
    by (simp add: lowerMerchantLine_def merchantMatchAt_def toUpper_def isSpace_def isDigit_def)
  show "merchantMatch indentedLine = None" "merchantMatch markedLine = None"
    "merchantMatch shortLine = None"
    by (rule merchantMatch_absent; simp add: no_letter_m)+
  show "merchantMatch ''====='' = None"
    by (rule merchantMatch_absent) simp_all
  show "merchantMatch sampleLine = None"
    by (rule merchant_sample)
qed

lemma trim_merchant_lines:
  "trim merchantLine = merchantLine" "trim lowerMerchantLine = lowerMerchantLine"
  "trim shortLine = shortLine" "trim markedLine = markedLine"
  by (rule trim_tight; simp add: merchantLine_def lowerMerchantLine_def shortLine_def
      markedLine_def sampleLine_def isSpace_def)+

lemma not_data_lines:
  "\<not> isDataLine merchantLine" "\<not> isDataLine lowerMerchantLine"
proof -
  show "\<not> isDataLine merchantLine"
    using isDataLine_head [of merchantLine]
    by (auto simp: trim_merchant_lines) (simp add: merchantLine_def isDigit_def)
  show "\<not> isDataLine lowerMerchantLine"
    using isDataLine_head [of lowerMerchantLine]
    by (auto simp: trim_merchant_lines) (simp add: lowerMerchantLine_def isDigit_def)
qed

lemma short_fields: "length (splitFields [] (trim shortLine)) = 8"
  by (simp add: trim_merchant_lines) (simp add: shortLine_def isSpace_def)

lemma marked_fields: "length (splitFields [] (trim markedLine)) = 11"
  by (simp add: trim_merchant_lines) (simp add: markedLine_def sampleLine_def isSpace_def)

lemma data_marked: "isDataLine markedLine"
  unfolding isDataLine_def trim_merchant_lines Let_def
  by (simp add: markedLine_def sampleLine_def isDigit_def)

lemma line_transactions [simp]:
  "lineTransactions P m merchantLine = []"
  "lineTransactions P m ''====='' = []"
  "lineTransactions P m markedLine = []"
  "lineTransactions P m lowerMerchantLine = []"
  "lineTransactions P m shortLine = []"
  by (simp_all add: lineTransactions_marker lineTransactions_other not_data_lines
      lineTransactions_short short_fields)

lemma line_transactions_sample [simp]:
  "lineTransactions P m indentedLine =
     [\<lparr>merchantNumber = m, cardNumber = ''532016XXXXXX3032'',
       tranAmount = parseFloat P ''49900.00'', commission = parseFloat P ''898.20'',
       netAmount = parseFloat P ''49001.80'', authId = ''074680''\<rparr>]"
  "lineTransactions P m sampleLine =
     [\<lparr>merchantNumber = m, cardNumber = ''532016XXXXXX3032'',
       tranAmount = parseFloat P ''49900.00'', commission = parseFloat P ''898.20'',
       netAmount = parseFloat P ''49001.80'', authId = ''074680''\<rparr>]"
  by (rule lineTransactions_like_sample; simp add: trim_indented trim_sample)+

lemma lines_content:
  "splitLines sampleContent =
     [merchantLine, indentedLine, ''====='', markedLine, lowerMerchantLine, shortLine, sampleLine]"
  unfolding splitLines_def sampleContent_def
  using splitOn_joinWith [OF _ no_newline, of "[]"] by simp

lemma parse_content:
  "parseMsgContent P sampleContent =
     [\<lparr>merchantNumber = ''3010147'', cardNumber = ''532016XXXXXX3032'',
       tranAmount = parseFloat P ''49900.00'', commission = parseFloat P ''898.20'',
       netAmount = parseFloat P ''49001.80'', authId = ''074680''\<rparr>,
      \<lparr>merchantNumber = ''42'', cardNumber = ''532016XXXXXX3032'',
       tranAmount = parseFloat P ''49900.00'', commission = parseFloat P ''898.20'',
       netAmount = parseFloat P ''49001.80'', authId = ''074680''\<rparr>]"
  by (simp add: parseMsgContent_def lines_content parseLine_step Let_def)

lemma parse_marked: "parseMsgContent P markedLine = []"
proof -
  have "CHR 0x0A \<notin> set markedLine"
    by (simp add: markedLine_def sampleLine_def)
  then have "splitLines markedLine = [markedLine]"
    by (simp add: splitLines_def splitOn_absent)
  then show ?thesis
    by (simp add: parseMsgContent_def parseLine_step Let_def)
qed

lemma parse_lines:
  "parseMsgContent P content =
     concat (map (\<lambda>i. lineTransactions P (merchantInEffect (take (Suc i) (splitLines content)))
                        (splitLines content ! i))
               [0..<length (splitLines content)])"
  using foldl_parseLine [of P "splitLines content"] by (simp add: parseMsgContent_def)

lemma digit_runs: "\<not> isDataLine ''1234567890''" "isDataLine ''12345678901''"
  by (simp_all add: isDataLine_def trim_def isSpace_def isDigit_def Let_def)


lemma parseLine_skips:
  "stringIncludes line ''Visa / Master Transactions'' \<or> stringIncludes line ''====='' \<or> \<not> isDataLine line
     \<Longrightarrow> snd (snd (parseLine P (m, t, txs) line)) = txs"
  by (auto simp: parseLine_step Let_def lineTransactions_marker lineTransactions_other)

lemma parseLine_merchant:
  "fst (parseLine P (m, t, txs) line)
     = (case merchantMatch line of Some digits \<Rightarrow> digits | None \<Rightarrow> m)"
  by (simp add: parseLine_step Let_def)

text \<open>
  C6, as the code has it. A file that is the one data line of the specification gives
  exactly one transaction: the card number is the first field, the authorization id the
  ninth, and the three amounts are \<open>parseFloat\<close> of the fourth, sixth and seventh field
  without their commas, that is 49900, 898.20 and 49001.80 in the decimal reading. The
  transactions of a file are those of its lines in order, every line under the merchant
  number in effect at it. A line that contains neither table marker and whose trimmed
  form starts with the card pattern is split at the runs of two or more white-space
  characters; with fewer than nine fields it adds nothing, and otherwise it adds one
  transaction built from the fields 0, 3, 5, 6 and 8. A line that contains one of the
  two markers adds nothing, whatever else it holds. The lines are the pieces between
  the newlines, trimming removes the white space at both ends, and the split ends a
  field at a run of two or more white-space characters and nowhere else.
\<close>

theorem parseMsgContent_data_lines:
  "parseMsgContent P sampleLine =
     [\<lparr>merchantNumber = [], cardNumber = ''532016XXXXXX3032'',
       tranAmount = parseFloat P ''49900.00'', commission = parseFloat P ''898.20'',
       netAmount = parseFloat P ''49001.80'', authId = ''074680''\<rparr>]
   \<and> parseMsgContent decimalPrims sampleLine =
     [\<lparr>merchantNumber = [], cardNumber = ''532016XXXXXX3032'', tranAmount = Fin 49900,
       commission = Fin (8982 / 10), netAmount = Fin (490018 / 10), authId = ''074680''\<rparr>]
   \<and> parseMsgContent P sampleContent =
     [\<lparr>merchantNumber = ''3010147'', cardNumber = ''532016XXXXXX3032'',
       tranAmount = parseFloat P ''49900.00'', commission = parseFloat P ''898.20'',
       netAmount = parseFloat P ''49001.80'', authId = ''074680''\<rparr>,
      \<lparr>merchantNumber = ''42'', cardNumber = ''532016XXXXXX3032'',
       tranAmount = parseFloat P ''49900.00'', commission = parseFloat P ''898.20'',
       netAmount = parseFloat P ''49001.80'', authId = ''074680''\<rparr>]
   \<and> parseMsgContent P content =
       concat (map (\<lambda>i. lineTransactions P (merchantInEffect (take (Suc i) (splitLines content)))
                          (splitLines content ! i))
                 [0..<length (splitLines content)])
   \<and> (\<not> stringIncludes line ''Visa / Master Transactions'' \<and> \<not> stringIncludes line ''=====''
        \<and> isDataLine line \<longrightarrow>
      parseLine P (m, t, txs) line =
        (let parts = splitFields [] (trim line);
             merchantNo = (case merchantMatch line of Some digits \<Rightarrow> digits | None \<Rightarrow> m)
         in (merchantNo, t,
             if length parts < 9 then txs
             else txs @ [\<lparr>merchantNumber = merchantNo, cardNumber = parts ! 0,
                          tranAmount = parseFloat P (stripCommas (parts ! 3)),
                          commission = parseFloat P (stripCommas (parts ! 5)),
                          netAmount = parseFloat P (stripCommas (parts ! 6)),
                          authId = parts ! 8\<rparr>])))
   \<and> (stringIncludes line ''Visa / Master Transactions'' \<or> stringIncludes line ''=====''
        \<or> \<not> isDataLine line \<longrightarrow>
      snd (snd (parseLine P (m, t, txs) line)) = txs)
   \<and> fst (parseLine P (m, t, txs) line)
       = (case merchantMatch line of Some digits \<Rightarrow> digits | None \<Rightarrow> m)
   \<and> joinWith [CHR 0x0A] (splitLines content) = content
   \<and> list_all (\<lambda>l. CHR 0x0A \<notin> set l) (splitLines content)
   \<and> (list_all isSpace pre \<and> list_all isSpace post \<and> body \<noteq> []
        \<and> \<not> isSpace (hd body) \<and> \<not> isSpace (last body) \<longrightarrow> trim (pre @ body @ post) = body)
   \<and> (list_all isSpace pre \<longrightarrow> trim pre = [])
   \<and> \<not> isDataLine ''1234567890'' \<and> isDataLine ''12345678901''
   \<and> (singleSpaced a \<and> 2 \<le> length ws \<and> list_all isSpace ws \<and> (b = [] \<or> \<not> isSpace (hd b)) \<longrightarrow>
        splitFields cur (a @ ws @ b) = (cur @ a) # splitFields [] b)
   \<and> (singleSpaced a \<longrightarrow> splitFields cur a = [cur @ a])
   \<and> CHR '','' \<notin> set (stripCommas s)"
proof -
  have dec: "parseMsgContent decimalPrims sampleLine =
     [\<lparr>merchantNumber = [], cardNumber = ''532016XXXXXX3032'', tranAmount = Fin 49900,
       commission = Fin (8982 / 10), netAmount = Fin (490018 / 10), authId = ''074680''\<rparr>]"
    by (simp only: parse_sample decimalPrims_simps read_sample)
  have lines: "joinWith [CHR 0x0A] (splitLines content) = content"
    "list_all (\<lambda>l. CHR 0x0A \<notin> set l) (splitLines content)"
    by (simp_all add: splitLines_def joinWith_splitOn splitOn_lines_free)
  have commas: "CHR '','' \<notin> set (stripCommas s)"
    by (simp add: stripCommas_def)
  note facts = parse_sample [of P] dec parse_content [of P] parse_lines [of P content]
    parseLine_data [of line P m t txs] parseLine_skips [of line P m t txs]
    parseLine_merchant [of P m t txs line] lines
    trim_padded [of pre post body] trim_all_space [of pre] digit_runs
    splitFields_field [of ws b a cur] splitFields_last [of a cur] commas
  show ?thesis
    using facts by blast
qed

theorem parseMsgContent_data_lines_witness:
  "parseLine decimalPrims (''3010147'', False, []) sampleLine =
     (''3010147'', False,
      [\<lparr>merchantNumber = ''3010147'', cardNumber = ''532016XXXXXX3032'', tranAmount = Fin 49900,
        commission = Fin (8982 / 10), netAmount = Fin (490018 / 10), authId = ''074680''\<rparr>])
   \<and> splitFields [] ''898.20  49,001.80'' = [''898.20'', ''49,001.80'']
   \<and> trim indentedLine = sampleLine
   \<and> snd (snd (parseLine decimalPrims (''3010147'', False, []) markedLine)) = []"
proof -
  note T = parseMsgContent_data_lines [where P = decimalPrims and line = sampleLine
      and m = "''3010147''" and t = False and txs = "[]" and a = "''898.20''" and ws = "''  ''"
      and b = "''49,001.80''" and cur = "[]" and pre = "''  ''" and body = sampleLine
      and post = "[CHR 0x0D]"]
  have tight: "singleSpaced ''898.20''" "singleSpaced ''49,001.80''"
    by (simp_all add: isSpace_def)
  have gap: "2 \<le> length ''  ''" "list_all isSpace ''  ''" "\<not> isSpace (hd ''49,001.80'')"
    by (simp_all add: isSpace_def)
  from T tight(1) gap have "splitFields [] (''898.20'' @ ''  '' @ ''49,001.80'')
      = ([] @ ''898.20'') # splitFields [] ''49,001.80''"
    by blast
  moreover from parseMsgContent_data_lines [where P = decimalPrims and a = "''49,001.80''"
      and cur = "[]"] tight(2)
  have "splitFields [] ''49,001.80'' = [[] @ ''49,001.80'']"
    by blast
  ultimately have split: "splitFields [] ''898.20  49,001.80'' = [''898.20'', ''49,001.80'']"
    by simp
  from T markers_sample data_sample
  have "parseLine decimalPrims (''3010147'', False, []) sampleLine =
        (let parts = splitFields [] (trim sampleLine);
             merchantNo = (case merchantMatch sampleLine of Some digits \<Rightarrow> digits | None \<Rightarrow> ''3010147'')
         in (merchantNo, False,
             if length parts < 9 then []
             else [] @ [\<lparr>merchantNumber = merchantNo, cardNumber = parts ! 0,
                          tranAmount = parseFloat decimalPrims (stripCommas (parts ! 3)),
                          commission = parseFloat decimalPrims (stripCommas (parts ! 5)),
                          netAmount = parseFloat decimalPrims (stripCommas (parts ! 6)),
                          authId = parts ! 8\<rparr>]))"
    by blast
  then have line: "parseLine decimalPrims (''3010147'', False, []) sampleLine =
     (''3010147'', False,
      [\<lparr>merchantNumber = ''3010147'', cardNumber = ''532016XXXXXX3032'', tranAmount = Fin 49900,
        commission = Fin (8982 / 10), netAmount = Fin (490018 / 10), authId = ''074680''\<rparr>])"
    unfolding trim_sample split_sample merchant_sample
    by (simp add: stripCommas_def read_sample Let_def)
  have pad: "list_all isSpace ''  ''" "list_all isSpace [CHR 0x0D]"
    by (simp_all add: isSpace_def)
  from T pad sample_ends have "trim (''  '' @ sampleLine @ [CHR 0x0D]) = sampleLine"
    by blast
  then have indented: "trim indentedLine = sampleLine"
    by (simp add: indentedLine_def)
  from parseMsgContent_data_lines [where P = decimalPrims and line = markedLine
      and m = "''3010147''" and t = False and txs = "[]"] separator_lines(4)
  have marked: "snd (snd (parseLine decimalPrims (''3010147'', False, []) markedLine)) = []"
    by blast
  from line split indented marked show ?thesis by simp
qed

text \<open>
  The claim as the specification states it fails on a data line that holds a table
  marker: the data line of the specification followed by two blanks and five equals
  signs starts with the card pattern and has eleven fields, and the parser returns no
  transaction for it, because the loop goes on to the next line at the marker.
\<close>

theorem marked_data_line_counterexample:
  "isDataLine markedLine \<and> length (splitFields [] (trim markedLine)) = 11
   \<and> parseMsgContent decimalPrims markedLine = []"
  by (simp add: data_marked marked_fields parse_marked)

end
